theory Spec2Isabelle
  imports Main "HOL-Library.Word"
begin

unbundle bit_operations_syntax

section \<open>Common Python data\<close>

text \<open>
  The exceptions the three modules raise. \<open>ListSizeError\<close> carries the two bounds the
  snapshot module passes to it; the disk image errors carry the track (and sector) they
  are raised with.
\<close>

datatype error =
    TypeError
  | ValueError
  | IndexError
  | MemoryError
  | FileFormatError
  | ListSizeError int int
  | PixelListSizeError
  | InvalidTrackError int
  | TrackDataError int
  | InvalidSectorError int int
  | SectorWriteError int int

text \<open>A \<open>bytearray\<close> is a list of bytes; reading an element gives a Python int.\<close>

type_synonym byte = "8 word"

text \<open>
  A method that mutates its object either returns (\<open>Done\<close>, with the object as it is
  then) or raises (\<open>Raised\<close>, with the object as the method left it when the exception
  started to propagate).
\<close>

datatype 's outcome = Done 's | Raised error 's

text \<open>\<open>xs[i]\<close> on a list or a bytearray: a negative index counts from the end.\<close>

definition getitem :: "'a list \<Rightarrow> int \<Rightarrow> error + 'a" where
  "getitem xs i =
     (let n = int (length xs); j = (if i < 0 then i + n else i)
      in if 0 \<le> j \<and> j < n then Inr (xs ! nat j) else Inl IndexError)"

text \<open>
  \<open>b[i] = v\<close> on a bytearray: the value must be a byte, the index must exist.
\<close>

definition setitem :: "byte list \<Rightarrow> int \<Rightarrow> int \<Rightarrow> error + byte list" where
  "setitem b i v =
     (let n = int (length b); j = (if i < 0 then i + n else i)
      in if \<not> (0 \<le> v \<and> v < 256) then Inl ValueError
         else if 0 \<le> j \<and> j < n then Inr (b[nat j := word_of_int v])
         else Inl IndexError)"

text \<open>
  The bounds of a slice \<open>xs[i:j]\<close> (step 1): a negative bound counts from the end, and
  both are clipped to the length.
\<close>

definition slice_bound :: "nat \<Rightarrow> int \<Rightarrow> nat" where
  "slice_bound n i = (if i < 0 then nat (max 0 (i + int n)) else min (nat i) n)"

definition getslice :: "'a list \<Rightarrow> int \<Rightarrow> int \<Rightarrow> 'a list" where
  "getslice xs i j =
     (let lo = slice_bound (length xs) i; hi = slice_bound (length xs) j
      in take (hi - lo) (drop lo xs))"

text \<open>
  \<open>xs[i:j] = ys\<close>: the elements between the bounds are replaced by \<open>ys\<close>, whatever its
  length; when the upper bound is below the lower one nothing is removed.
\<close>

definition setslice :: "'a list \<Rightarrow> int \<Rightarrow> int \<Rightarrow> 'a list \<Rightarrow> 'a list" where
  "setslice xs i j ys =
     (let lo = slice_bound (length xs) i; hi = max lo (slice_bound (length xs) j)
      in take lo xs @ ys @ drop hi xs)"

text \<open>Evaluating the next expression, unless the one before raised.\<close>

fun then_do :: "error + 'a \<Rightarrow> ('a \<Rightarrow> error + 'b) \<Rightarrow> error + 'b" where
  "then_do (Inl e) f = Inl e"
| "then_do (Inr x) f = f x"

text \<open>
  \<open>f.read(n)\<close> on a file opened with \<open>open(filepath, 'rb')\<close>, whose content is
  \<open>content\<close> and whose position is \<open>pos\<close>: up to \<open>n\<close> bytes from the position on, all
  the rest when \<open>n\<close> is -1, and \<open>ValueError\<close> when \<open>n\<close> is below -1. The result is the
  bytes read and the new position.
\<close>

definition file_read :: "byte list \<Rightarrow> nat \<Rightarrow> int \<Rightarrow> error + byte list \<times> nat" where
  "file_read content pos n =
     (if n < - 1 then Inl ValueError
      else if n = - 1 then Inr (drop pos content, max pos (length content))
      else Inr (take (nat n) (drop pos content), min (pos + nat n) (max pos (length content))))"

section \<open>cpcimage.py: the pixel codec\<close>

text \<open>\<open>x in range(lo, hi)\<close> for an int \<open>x\<close>.\<close>

definition in_range :: "int \<Rightarrow> int \<Rightarrow> int \<Rightarrow> bool" where
  "in_range x lo hi \<longleftrightarrow> lo \<le> x \<and> x < hi"

text \<open>
  \<open>encode_pixels\<close>: the length selects the mode (2 pixels of 4 bits, 4 pixels of 2 bits),
  every pixel is checked against the mode's maximum, then the bits are interleaved.
\<close>

definition encode_pixels :: "int list \<Rightarrow> error + int" where
  "encode_pixels pixels =
     (if length pixels \<noteq> 2 \<and> length pixels \<noteq> 4 then Inl PixelListSizeError
      else
        let max_pixel_value = (if length pixels = 2 then 15 else 3) in
        if \<exists>p \<in> set pixels. \<not> in_range p 0 (max_pixel_value + 1) then Inl ValueError
        else if length pixels = 2 then
          Inr ((drop_bit 2 (pixels ! 0 AND 0x08)
                OR push_bit 3 (pixels ! 0 AND 0x04)
                OR push_bit 2 (pixels ! 0 AND 0x02)
                OR push_bit 7 (pixels ! 0 AND 0x01))
               OR (drop_bit 3 (pixels ! 1 AND 0x08)
                OR push_bit 2 (pixels ! 1 AND 0x04)
                OR push_bit 1 (pixels ! 1 AND 0x02)
                OR push_bit 6 (pixels ! 1 AND 0x01)))
        else
          Inr ((((push_bit 2 (pixels ! 0 AND 0x02)
                  OR push_bit 7 (pixels ! 0 AND 0x01))
                 OR (push_bit 1 (pixels ! 1 AND 0x02)
                  OR push_bit 6 (pixels ! 1 AND 0x01)))
                OR ((pixels ! 2 AND 0x02)
                  OR push_bit 5 (pixels ! 2 AND 0x01)))
               OR (drop_bit 1 (pixels ! 3 AND 0x02)
                  OR push_bit 4 (pixels ! 3 AND 0x01))))"

text \<open>\<open>decode_pixels\<close>: the byte and the mode are checked, then the bits are sorted back.\<close>

definition decode_pixels :: "int \<Rightarrow> int \<Rightarrow> error + int list" where
  "decode_pixels byte screen_mode =
     (if \<not> in_range byte 0 256 then Inl ValueError
      else if screen_mode \<noteq> 0 \<and> screen_mode \<noteq> 1 then Inl ValueError
      else if screen_mode = 0 then
        Inr [push_bit 2 (byte AND 0x02)
               OR drop_bit 3 (byte AND 0x20)
               OR drop_bit 2 (byte AND 0x08)
               OR drop_bit 7 (byte AND 0x80),
             push_bit 3 (byte AND 0x01)
               OR drop_bit 2 (byte AND 0x10)
               OR drop_bit 1 (byte AND 0x04)
               OR drop_bit 6 (byte AND 0x40)]
      else
        Inr [drop_bit 2 (byte AND 0x08) OR drop_bit 7 (byte AND 0x80),
             drop_bit 1 (byte AND 0x04) OR drop_bit 6 (byte AND 0x40),
             (byte AND 0x02) OR drop_bit 5 (byte AND 0x20),
             push_bit 1 (byte AND 0x01) OR drop_bit 4 (byte AND 0x10)])"

text \<open>The composition \<open>decode_pixels(encode_pixels(pixels), screen_mode)\<close>.\<close>

definition decode_encoded :: "int list \<Rightarrow> int \<Rightarrow> error + int list" where
  "decode_encoded pixels screen_mode =
     (case encode_pixels pixels of
        Inl e \<Rightarrow> Inl e
      | Inr byte \<Rightarrow> decode_pixels byte screen_mode)"


section \<open>cpcsnapshot.py: the snapshot\<close>

text \<open>
  A \<open>Snapshot\<close> object holds two bytearrays: the 256-byte header and the RAM image.
\<close>

record snapshot =
  header :: "byte list"
  memory :: "byte list"

text \<open>Running the next statement of a method body, unless the one before raised.\<close>

fun and_then :: "'s outcome \<Rightarrow> ('s \<Rightarrow> 's outcome) \<Rightarrow> 's outcome" where
  "and_then (Done s) f = f s"
| "and_then (Raised e s) f = Raised e s"

text \<open>The statement \<open>self.header[i] = v\<close>.\<close>

definition store_header :: "snapshot \<Rightarrow> int \<Rightarrow> int \<Rightarrow> snapshot outcome" where
  "store_header s i v =
     (case setitem (header s) i v of
        Inl e \<Rightarrow> Raised e s
      | Inr h \<Rightarrow> Done (s\<lparr>header := h\<rparr>))"

text \<open>The table from hardware ink values to firmware ink values.\<close>

definition firmware_inks :: "int list" where
  "firmware_inks =
     [13, 27, 19, 25, 1, 7, 10, 16, 28, 29, 24, 26, 6, 8, 15, 17,
      30, 31, 18, 20, 0, 2, 9, 11, 4, 22, 21, 23, 3, 5, 12, 14]"

subsection \<open>Interrupts, screen mode, ROMs\<close>

definition disable_interrupts :: "snapshot \<Rightarrow> snapshot outcome" where
  "disable_interrupts s =
     (case getitem (header s) 0x1b of
        Inl e \<Rightarrow> Raised e s
      | Inr b \<Rightarrow>
          and_then (store_header s 0x1b (uint b AND 0xfe))
            (\<lambda>s'. case getitem (header s') 0x1b of
                     Inl e \<Rightarrow> Raised e s'
                   | Inr b' \<Rightarrow> store_header s' 0x1c (uint b' AND 0xfe)))"

definition set_screen_mode :: "snapshot \<Rightarrow> int \<Rightarrow> snapshot outcome" where
  "set_screen_mode s screen_mode =
     (if \<not> in_range screen_mode 0 4 then Raised ValueError s
      else case getitem (header s) 0x40 of
             Inl e \<Rightarrow> Raised e s
           | Inr b \<Rightarrow> store_header s 0x40 ((uint b AND 0xfc) OR screen_mode))"

definition disable_lower_rom :: "snapshot \<Rightarrow> snapshot outcome" where
  "disable_lower_rom s =
     (case getitem (header s) 0x40 of
        Inl e \<Rightarrow> Raised e s
      | Inr b \<Rightarrow> store_header s 0x40 ((uint b AND 0xfb) OR 0x04))"

definition disable_upper_rom :: "snapshot \<Rightarrow> snapshot outcome" where
  "disable_upper_rom s =
     (case getitem (header s) 0x40 of
        Inl e \<Rightarrow> Raised e s
      | Inr b \<Rightarrow> store_header s 0x40 ((uint b AND 0xf7) OR 0x08))"

subsection \<open>Inks\<close>

text \<open>\<open>_validate_hardware_ink_colour\<close>: 0-31, or 0x40-0x5f.\<close>

definition validate_hardware_ink_colour :: "int \<Rightarrow> bool" where
  "validate_hardware_ink_colour colour \<longleftrightarrow>
     in_range colour 0 0x20 \<or> in_range colour 0x40 0x60"

definition get_ink :: "snapshot \<Rightarrow> int \<Rightarrow> error + int" where
  "get_ink s ink =
     (case getitem (header s) (ink + 0x2f) of
        Inl e \<Rightarrow> Inl e
      | Inr b \<Rightarrow> Inr (uint b AND 0x3f))"

definition get_firmware_ink :: "snapshot \<Rightarrow> int \<Rightarrow> error + int" where
  "get_firmware_ink s ink =
     (case getitem (header s) (ink + 0x2f) of
        Inl e \<Rightarrow> Inl e
      | Inr b \<Rightarrow> getitem firmware_inks (uint b AND 0x3f))"

text \<open>
  \<open>get_firmware_inks\<close>: a list of 16 zeros, filled by the loop
  \<open>for ink in range(0, 16): inks[ink] = self.get_firmware_ink(ink)\<close>.
\<close>

fun get_firmware_inks_loop :: "snapshot \<Rightarrow> int list \<Rightarrow> int list \<Rightarrow> error + int list" where
  "get_firmware_inks_loop s [] inks = Inr inks"
| "get_firmware_inks_loop s (ink # rest) inks =
     (case get_firmware_ink s ink of
        Inl e \<Rightarrow> Inl e
      | Inr c \<Rightarrow> get_firmware_inks_loop s rest (inks[nat ink := c]))"

definition get_firmware_inks :: "snapshot \<Rightarrow> error + int list" where
  "get_firmware_inks s = get_firmware_inks_loop s [0..15] (replicate 16 0)"

definition set_ink :: "snapshot \<Rightarrow> int \<Rightarrow> int \<Rightarrow> snapshot outcome" where
  "set_ink s ink colour =
     (if \<not> in_range ink 0 16 then Raised ValueError s
      else if \<not> in_range colour 0 32 then Raised ValueError s
      else store_header s (ink + 0x2f) colour)"

text \<open>
  \<open>set_inks\<close>: the length is checked, then the loop
  \<open>for ink in range(len(inks))\<close> takes \<open>colour = inks[ink]\<close>, checks it and calls
  \<open>set_ink\<close>; the loop function walks the list with the index \<open>ink\<close> beside it.
\<close>

fun set_inks_loop :: "snapshot \<Rightarrow> int \<Rightarrow> int list \<Rightarrow> snapshot outcome" where
  "set_inks_loop s ink [] = Done s"
| "set_inks_loop s ink (colour # rest) =
     (if \<not> validate_hardware_ink_colour colour then Raised ValueError s
      else and_then (set_ink s ink colour) (\<lambda>s'. set_inks_loop s' (ink + 1) rest))"

definition set_inks :: "snapshot \<Rightarrow> int list \<Rightarrow> snapshot outcome" where
  "set_inks s inks =
     (if \<not> in_range (int (length inks)) 1 17 then Raised (ListSizeError 1 16) s
      else set_inks_loop s 0 inks)"

definition set_border :: "snapshot \<Rightarrow> int \<Rightarrow> snapshot outcome" where
  "set_border s colour =
     (if \<not> validate_hardware_ink_colour colour then Raised ValueError s
      else store_header s 0x3f colour)"

subsection \<open>CRTC registers\<close>

definition set_crtc_register :: "snapshot \<Rightarrow> int \<Rightarrow> int \<Rightarrow> snapshot outcome" where
  "set_crtc_register s register value =
     (if \<not> in_range register 0 18 then Raised ValueError s
      else if \<not> in_range value 0 256 then Raised ValueError s
      else store_header s (register + 0x43) value)"

fun set_crtc_registers_loop :: "snapshot \<Rightarrow> int \<Rightarrow> int list \<Rightarrow> snapshot outcome" where
  "set_crtc_registers_loop s register [] = Done s"
| "set_crtc_registers_loop s register (value # rest) =
     (if \<not> in_range value 0 256 then Raised ValueError s
      else and_then (set_crtc_register s register value)
             (\<lambda>s'. set_crtc_registers_loop s' (register + 1) rest))"

definition set_crtc_registers :: "snapshot \<Rightarrow> int list \<Rightarrow> snapshot outcome" where
  "set_crtc_registers s registers =
     (if \<not> in_range (int (length registers)) 1 18 then Raised (ListSizeError 1 18) s
      else set_crtc_registers_loop s 0 registers)"

subsection \<open>Memory\<close>

definition insert_bytes :: "snapshot \<Rightarrow> byte list \<Rightarrow> int \<Rightarrow> snapshot outcome" where
  "insert_bytes s bytes start_offset =
     (let end_offset = int (length bytes) + start_offset - 1 in
      if start_offset < 0x10000 \<and> end_offset \<ge> 0x10000 then Raised MemoryError s
      else if start_offset \<ge> 0x10000 \<and> end_offset \<ge> int (length (memory s))
      then Raised MemoryError s
      else Done (s\<lparr>memory :=
             setslice (memory s) start_offset (start_offset + int (length bytes)) bytes\<rparr>))"

subsection \<open>The blank snapshot\<close>

text \<open>
  \<open>Snapshot(ram_size=...)\<close> with no file path: a zeroed header and RAM, then the
  version, the RAM size, the signature \<open>MV - SNA\<close>, the default CRTC registers, black
  inks and border, mode 1, both ROMs and the interrupts disabled, the PPI control word.
\<close>

definition Snapshot_init :: "int \<Rightarrow> error + snapshot" where
  "Snapshot_init ram_size =
     (if ram_size \<noteq> 64 \<and> ram_size \<noteq> 128 then Inl ValueError
      else
        case
          and_then (and_then (and_then (and_then (and_then (and_then (and_then (and_then
          (and_then (and_then
            (store_header
               \<lparr>header = replicate 256 0, memory = replicate (nat (ram_size * 1024)) 0\<rparr>
               0x10 2)
            (\<lambda>s. store_header s 0x6b ram_size))
            (\<lambda>s. Done (s\<lparr>header :=
                    setslice (header s) 0 8 [0x4d, 0x56, 0x20, 0x2d, 0x20, 0x53, 0x4e, 0x41]\<rparr>)))
            (\<lambda>s. set_crtc_registers s [63, 40, 46, 142, 38, 0, 25, 30, 0, 7, 0, 0, 48, 0, 192, 0]))
            (\<lambda>s. set_inks s (replicate 16 20)))
            (\<lambda>s. set_border s 20))
            (\<lambda>s. set_screen_mode s 1))
            disable_lower_rom)
            disable_upper_rom)
            disable_interrupts)
            (\<lambda>s. store_header s 0x59 0x82)
        of Done s \<Rightarrow> Inr s
         | Raised e s \<Rightarrow> Inl e)"

text \<open>
  The object that \<open>Snapshot()\<close> (64 KiB, no file path) builds, written out; that it is
  the result of \<open>Snapshot_init 64\<close> is proved below.
\<close>

definition blank_snapshot :: snapshot where
  "blank_snapshot =
     \<lparr>header =
       [77, 86, 32, 45, 32, 83, 78, 65, 0, 0, 0, 0, 0, 0, 0, 0,
        2, 0, 0, 0, 0, 0, 0, 0, 0, 0, 0, 0, 0, 0, 0, 0,
        0, 0, 0, 0, 0, 0, 0, 0, 0, 0, 0, 0, 0, 0, 0, 20,
        20, 20, 20, 20, 20, 20, 20, 20, 20, 20, 20, 20, 20, 20, 20, 20,
        13, 0, 0, 63, 40, 46, 142, 38, 0, 25, 30, 0, 7, 0, 0, 48,
        0, 192, 0, 0, 0, 0, 0, 0, 0, 130, 0, 0, 0, 0, 0, 0,
        0, 0, 0, 0, 0, 0, 0, 0, 0, 0, 0, 64, 0, 0, 0, 0,
        0, 0, 0, 0, 0, 0, 0, 0, 0, 0, 0, 0, 0, 0, 0, 0,
        0, 0, 0, 0, 0, 0, 0, 0, 0, 0, 0, 0, 0, 0, 0, 0,
        0, 0, 0, 0, 0, 0, 0, 0, 0, 0, 0, 0, 0, 0, 0, 0,
        0, 0, 0, 0, 0, 0, 0, 0, 0, 0, 0, 0, 0, 0, 0, 0,
        0, 0, 0, 0, 0, 0, 0, 0, 0, 0, 0, 0, 0, 0, 0, 0,
        0, 0, 0, 0, 0, 0, 0, 0, 0, 0, 0, 0, 0, 0, 0, 0,
        0, 0, 0, 0, 0, 0, 0, 0, 0, 0, 0, 0, 0, 0, 0, 0,
        0, 0, 0, 0, 0, 0, 0, 0, 0, 0, 0, 0, 0, 0, 0, 0,
        0, 0, 0, 0, 0, 0, 0, 0, 0, 0, 0, 0, 0, 0, 0, 0],
      memory = replicate 65536 0\<rparr>"

subsection \<open>The snapshot read from a file\<close>

text \<open>The bytes of \<open>'MV - SNA'\<close>.\<close>

definition sna_signature :: "byte list" where
  "sna_signature = [0x4d, 0x56, 0x20, 0x2d, 0x20, 0x53, 0x4e, 0x41]"

text \<open>
  \<open>Snapshot(filepath)\<close>, for a file with the given content: the first 256 bytes are
  the header; it must start with the signature and hold 2 at offset 0x10 (which the
  object keeps as \<open>version\<close> too; no method reads that attribute); then
  \<open>st_size - 256\<close> bytes more are the memory, whatever their number.
\<close>

definition Snapshot_init_file :: "byte list \<Rightarrow> error + snapshot" where
  "Snapshot_init_file content =
     then_do (file_read content 0 256)
       (\<lambda>(hdr, pos).
          if getslice hdr 0 8 \<noteq> sna_signature then Inl FileFormatError
          else then_do (getitem hdr 0x10)
                 (\<lambda>version.
                    if uint version \<noteq> 2 then Inl FileFormatError
                    else then_do (file_read content pos (int (length content) - 256))
                           (\<lambda>(mem, pos'). Inr \<lparr>header = hdr, memory = mem\<rparr>)))"

text \<open>
  A snapshot file cut short: a version 2 header that declares 64 KiB, followed by 100
  bytes of memory only. \<open>short_snapshot\<close> is the object the constructor builds from it.
\<close>

definition short_sna :: "byte list" where
  "short_sna =
     sna_signature @ replicate 8 0 @ [2] @ replicate 90 0 @ [64] @ replicate 148 0 @
     replicate 100 0"

definition short_snapshot :: snapshot where
  "short_snapshot =
     \<lparr>header = sna_signature @ replicate 8 0 @ [2] @ replicate 90 0 @ [64] @ replicate 148 0,
      memory = replicate 100 0\<rparr>"

section \<open>cpcdiskimage.py: the disk image\<close>

text \<open>
  A \<open>DiskImage\<close> object holds two bytearrays: the 256-byte disk information block and
  everything after it.
\<close>

record disk_image =
  header :: "byte list"
  track_info_block :: "byte list"

text \<open>The bytes of \<open>'EXTENDED CPC DSK File\r\n'\<close>.\<close>

definition dsk_signature :: "byte list" where
  "dsk_signature =
     [0x45, 0x58, 0x54, 0x45, 0x4e, 0x44, 0x45, 0x44, 0x20, 0x43, 0x50, 0x43,
      0x20, 0x44, 0x53, 0x4b, 0x20, 0x46, 0x69, 0x6c, 0x65, 0x0d, 0x0a]"

text \<open>
  \<open>DiskImage(filepath)\<close>, for a file with the given content (\<open>os.stat(filepath).st_size\<close>
  is its length): the first 256 bytes are the header; when it starts with the signature,
  \<open>st_size - 256\<close> bytes more are the track information blocks.
\<close>

definition DiskImage_init :: "byte list \<Rightarrow> error + disk_image" where
  "DiskImage_init content =
     then_do (file_read content 0 256)
       (\<lambda>(hdr, pos).
          if getslice hdr 0 23 \<noteq> dsk_signature then Inl FileFormatError
          else then_do (file_read content pos (int (length content) - 256))
                 (\<lambda>(tib, pos'). Inr \<lparr>header = hdr, track_info_block = tib\<rparr>))"

text \<open>
  Writing the image back, as patch.py does: \<open>file.write(abadia_dsk.header)\<close> then
  \<open>file.write(abadia_dsk.track_info_block)\<close>.
\<close>

definition DiskImage_write :: "disk_image \<Rightarrow> byte list" where
  "DiskImage_write d = header d @ track_info_block d"

definition number_of_tracks :: "disk_image \<Rightarrow> error + int" where
  "number_of_tracks d = then_do (getitem (header d) 0x30) (\<lambda>b. Inr (uint b))"

text \<open>\<open>_validate_track_number\<close>; the track is an int, so no \<open>TypeError\<close>.\<close>

definition validate_track_number :: "disk_image \<Rightarrow> int \<Rightarrow> error + unit" where
  "validate_track_number d track =
     then_do (number_of_tracks d)
       (\<lambda>n. if \<not> in_range track 0 n then Inl (InvalidTrackError track) else Inr ())"

definition get_track_info_block_size :: "disk_image \<Rightarrow> int \<Rightarrow> error + int" where
  "get_track_info_block_size d track =
     then_do (validate_track_number d track)
       (\<lambda>_. then_do (getitem (header d) (0x34 + track)) (\<lambda>b. Inr (uint b * 0x100)))"

text \<open>
  The loop \<open>for i in range(0, track): track_info_block_offset +=
  self.get_track_info_block_size(i)\<close>.
\<close>

fun track_info_block_offset_loop :: "disk_image \<Rightarrow> int list \<Rightarrow> int \<Rightarrow> error + int" where
  "track_info_block_offset_loop d [] track_info_block_offset = Inr track_info_block_offset"
| "track_info_block_offset_loop d (i # rest) track_info_block_offset =
     then_do (get_track_info_block_size d i)
       (\<lambda>size. track_info_block_offset_loop d rest (track_info_block_offset + size))"

definition get_track_info_block_offset :: "disk_image \<Rightarrow> int \<Rightarrow> error + int" where
  "get_track_info_block_offset d track =
     then_do (validate_track_number d track)
       (\<lambda>_. then_do (get_track_info_block_size d track)
          (\<lambda>size. if size = 0 then Inl (TrackDataError track)
                   else track_info_block_offset_loop d [0..track - 1] 0))"

text \<open>
  A sector's entry in the list \<open>get_sector_info\<close> returns: the tuple
  (C, H, R, N, ST1, ST2, actual size of the sector data). The code reads
  the sector ID as item 2, the size code as item 3 and the actual size as item 6.
\<close>

type_synonym sector_info = "int \<times> int \<times> int \<times> int \<times> int \<times> int \<times> int"

fun item2 :: "sector_info \<Rightarrow> int" where
  "item2 (c, h, r, n, st1, st2, actual) = r"

fun item3 :: "sector_info \<Rightarrow> int" where
  "item3 (c, h, r, n, st1, st2, actual) = n"

fun item6 :: "sector_info \<Rightarrow> int" where
  "item6 (c, h, r, n, st1, st2, actual) = actual"

text \<open>The eight bytes of one sector's entry, from \<open>track_info_block_ptr\<close> on.\<close>

definition read_sector_entry :: "byte list \<Rightarrow> int \<Rightarrow> error + sector_info" where
  "read_sector_entry tib track_info_block_ptr =
     then_do (getitem tib track_info_block_ptr) (\<lambda>c.
     then_do (getitem tib (track_info_block_ptr + 1)) (\<lambda>h.
     then_do (getitem tib (track_info_block_ptr + 2)) (\<lambda>r.
     then_do (getitem tib (track_info_block_ptr + 3)) (\<lambda>n.
     then_do (getitem tib (track_info_block_ptr + 4)) (\<lambda>st1.
     then_do (getitem tib (track_info_block_ptr + 5)) (\<lambda>st2.
     then_do (getitem tib (track_info_block_ptr + 6)) (\<lambda>lo.
     then_do (getitem tib (track_info_block_ptr + 7)) (\<lambda>hi.
       Inr (uint c, uint h, uint r, uint n, uint st1, uint st2,
            uint lo + uint hi * 0x100)))))))))"

text \<open>
  The loop \<open>for sector in range(0, number_of_sectors)\<close> of \<open>get_sector_info\<close>, which
  fills the list entry by entry and moves the pointer on by 8.
\<close>

fun sector_info_loop :: "byte list \<Rightarrow> int \<Rightarrow> nat \<Rightarrow> error + sector_info list" where
  "sector_info_loop tib track_info_block_ptr 0 = Inr []"
| "sector_info_loop tib track_info_block_ptr (Suc number_of_sectors) =
     then_do (read_sector_entry tib track_info_block_ptr) (\<lambda>entry.
     then_do (sector_info_loop tib (track_info_block_ptr + 8) number_of_sectors) (\<lambda>entries.
       Inr (entry # entries)))"

definition get_sector_info :: "disk_image \<Rightarrow> int \<Rightarrow> error + sector_info list" where
  "get_sector_info d track =
     then_do (validate_track_number d track) (\<lambda>_.
     then_do (get_track_info_block_size d track) (\<lambda>size.
       if size = 0 then Inr []
       else
         then_do (get_track_info_block_offset d track) (\<lambda>offset.
         then_do (getitem (track_info_block d) (offset + 0x15)) (\<lambda>number_of_sectors.
         then_do (get_track_info_block_offset d track) (\<lambda>offset'.
           sector_info_loop (track_info_block d) (offset' + 0x18)
             (unat number_of_sectors))))))"

text \<open>
  The loop of \<open>read_sector\<close> over the sector information list: the first entry with
  the sector ID gives the slice, any other entry moves the pointer on by its actual
  size.
\<close>

fun read_sector_loop ::
  "byte list \<Rightarrow> int \<Rightarrow> sector_info list \<Rightarrow> int \<Rightarrow> int \<Rightarrow> error + byte list" where
  "read_sector_loop tib sector_block_ptr [] track sector =
     Inl (InvalidSectorError track sector)"
| "read_sector_loop tib sector_block_ptr (entry # rest) track sector =
     (if item2 entry = sector
      then Inr (getslice tib sector_block_ptr
                  (sector_block_ptr + 128 * 2 ^ nat (item3 entry)))
      else read_sector_loop tib (sector_block_ptr + item6 entry) rest track sector)"

definition read_sector :: "disk_image \<Rightarrow> int \<Rightarrow> int \<Rightarrow> error + byte list" where
  "read_sector d track sector =
     then_do (validate_track_number d track) (\<lambda>_.
     then_do (get_track_info_block_size d track) (\<lambda>size.
       if size = 0 then Inl (TrackDataError track)
       else
         then_do (get_sector_info d track) (\<lambda>sector_info.
         then_do (get_track_info_block_offset d track) (\<lambda>offset.
           read_sector_loop (track_info_block d) (offset + 0x100) sector_info
             track sector))))"

text \<open>
  The loop of \<open>write_sector\<close>: at the first entry with the sector ID, the length of the
  data is compared with the entry's actual size; the result is the new content of
  \<open>track_info_block\<close>.
\<close>

fun write_sector_loop ::
  "byte list \<Rightarrow> int \<Rightarrow> sector_info list \<Rightarrow> int \<Rightarrow> int \<Rightarrow> byte list
     \<Rightarrow> error + byte list" where
  "write_sector_loop tib sector_block_ptr [] track sector data =
     Inl (InvalidSectorError track sector)"
| "write_sector_loop tib sector_block_ptr (entry # rest) track sector data =
     (if item2 entry = sector
      then if int (length data) \<noteq> item6 entry
           then Inl (SectorWriteError track sector)
           else Inr (setslice tib sector_block_ptr
                       (sector_block_ptr + int (length data)) data)
      else write_sector_loop tib (sector_block_ptr + item6 entry) rest track sector data)"

text \<open>
  \<open>write_sector\<close>: the only assignment is the last statement, so an exception leaves the
  object as it was.
\<close>

definition write_sector ::
  "disk_image \<Rightarrow> int \<Rightarrow> int \<Rightarrow> byte list \<Rightarrow> disk_image outcome" where
  "write_sector d track sector data =
     (case
        then_do (validate_track_number d track) (\<lambda>_.
        then_do (get_track_info_block_size d track) (\<lambda>size.
          if size = 0 then Inl (TrackDataError track)
          else
            then_do (get_sector_info d track) (\<lambda>sector_info.
            then_do (get_track_info_block_offset d track) (\<lambda>offset.
              write_sector_loop (track_info_block d) (offset + 0x100) sector_info
                track sector data))))
      of Inl e \<Rightarrow> Raised e d
       | Inr tib \<Rightarrow> Done (d\<lparr>track_info_block := tib\<rparr>))"

text \<open>
  An example disk image file of 768 bytes. Its header declares two tracks: track 0 with
  a track information block of 0x200 bytes, track 1 with none. Track 0 has two sectors:
  0xC1 with size code 0 (128 bytes) and an actual size of 128 bytes (data: 128 bytes of
  value 7), then 0xC2 with size code 1 (256 bytes) and an actual size of 128 bytes (data:
  128 bytes of value 9), which ends the file. \<open>example_image\<close> is the object the
  constructor builds from it.
\<close>

definition example_dsk :: "byte list" where
  "example_dsk =
     dsk_signature @ replicate 25 0 @ [2] @ replicate 3 0 @ [2, 0] @ replicate 202 0 @
     replicate 21 0 @ [2, 0, 0] @
     [0, 0, 0xC1, 0, 0, 0, 128, 0] @ [0, 0, 0xC2, 1, 0, 0, 128, 0] @ replicate 216 0 @
     replicate 128 7 @ replicate 128 9"

definition example_image :: disk_image where
  "example_image =
     \<lparr>header =
        dsk_signature @ replicate 25 0 @ [2] @ replicate 3 0 @ [2, 0] @ replicate 202 0,
      track_info_block =
        replicate 21 0 @ [2, 0, 0] @
        [0, 0, 0xC1, 0, 0, 0, 128, 0] @ [0, 0, 0xC2, 1, 0, 0, 128, 0] @ replicate 216 0 @
        replicate 128 7 @ replicate 128 9\<rparr>"

text \<open>
  A second example, which differs from the first in the two size codes only: sector
  0xC1 has size code 1 (256 bytes) and an actual size of 128 bytes, and sector 0xC2,
  whose data follows, has size code 0 and an actual size of 128 bytes.
\<close>

definition example_image2 :: disk_image where
  "example_image2 =
     \<lparr>header =
        dsk_signature @ replicate 25 0 @ [2] @ replicate 3 0 @ [2, 0] @ replicate 202 0,
      track_info_block =
        replicate 21 0 @ [2, 0, 0] @
        [0, 0, 0xC1, 1, 0, 0, 128, 0] @ [0, 0, 0xC2, 0, 0, 0, 128, 0] @ replicate 216 0 @
        replicate 128 7 @ replicate 128 9\<rparr>"

section \<open>The pixel codec: round trip\<close>

lemma nibble_cases:
  "0 \<le> (l::int) \<Longrightarrow> l \<le> 15 \<Longrightarrow> l \<in> {0,1,2,3,4,5,6,7,8,9,10,11,12,13,14,15}"
  by (simp; presburger)

lemma crumb_cases: "0 \<le> (l::int) \<Longrightarrow> l \<le> 3 \<Longrightarrow> l \<in> {0,1,2,3}"
  by (simp; presburger)

lemma decode_encoded_mode0:
  assumes "0 \<le> l" "l \<le> 15" "0 \<le> r" "r \<le> 15"
  shows "decode_encoded [l, r] 0 = Inr [l, r]"
  using nibble_cases [OF assms(1,2)] nibble_cases [OF assms(3,4)]
  by (elim insertE emptyE;
      simp add: decode_encoded_def encode_pixels_def decode_pixels_def in_range_def)

lemma decode_encoded_mode1:
  assumes "0 \<le> a" "a \<le> 3" "0 \<le> b" "b \<le> 3" "0 \<le> c" "c \<le> 3" "0 \<le> d" "d \<le> 3"
  shows "decode_encoded [a, b, c, d] 1 = Inr [a, b, c, d]"
  using crumb_cases [OF assms(1,2)] crumb_cases [OF assms(3,4)]
    crumb_cases [OF assms(5,6)] crumb_cases [OF assms(7,8)]
  by (elim insertE emptyE;
      simp add: decode_encoded_def encode_pixels_def decode_pixels_def in_range_def)

text \<open>
  C3. Encoding two pixels, each between 0 and 15, and decoding the byte in mode 0 gives
  the two pixels back; encoding four pixels, each between 0 and 3, and decoding the byte
  in mode 1 gives the four pixels back. Both \<open>encode_pixels\<close> and \<open>decode_pixels\<close>
  return (neither raises) on these inputs.
\<close>

theorem pixel_roundtrip:
  "(length pixels = 2 \<and> (\<forall>p \<in> set pixels. 0 \<le> p \<and> p \<le> 15)
      \<longrightarrow> decode_encoded pixels 0 = Inr pixels) \<and>
   (length pixels = 4 \<and> (\<forall>p \<in> set pixels. 0 \<le> p \<and> p \<le> 3)
      \<longrightarrow> decode_encoded pixels 1 = Inr pixels)"
proof (intro conjI impI)
  assume h: "length pixels = 2 \<and> (\<forall>p \<in> set pixels. 0 \<le> p \<and> p \<le> 15)"
  then obtain l r where "pixels = [l, r]"
    by (auto simp: length_Suc_conv numeral_2_eq_2)
  with h show "decode_encoded pixels 0 = Inr pixels"
    by (simp add: decode_encoded_mode0)
next
  assume h: "length pixels = 4 \<and> (\<forall>p \<in> set pixels. 0 \<le> p \<and> p \<le> 3)"
  then obtain a b c d where "pixels = [a, b, c, d]"
    by (auto simp: length_Suc_conv eval_nat_numeral)
  with h show "decode_encoded pixels 1 = Inr pixels"
    by (simp add: decode_encoded_mode1)
qed

theorem pixel_roundtrip_witness:
  "decode_encoded [5, 10] 0 = Inr [5, 10] \<and> decode_encoded [3, 1, 2, 0] 1 = Inr [3, 1, 2, 0]"
proof -
  have h0: "length [5, 10 :: int] = 2 \<and> (\<forall>p \<in> set [5, 10 :: int]. 0 \<le> p \<and> p \<le> 15)"
    by simp
  have h1: "length [3, 1, 2, 0 :: int] = 4 \<and> (\<forall>p \<in> set [3, 1, 2, 0 :: int]. 0 \<le> p \<and> p \<le> 3)"
    by simp
  from pixel_roundtrip [of "[5, 10]"] h0 have "decode_encoded [5, 10] 0 = Inr [5, 10]"
    by blast
  moreover from pixel_roundtrip [of "[3, 1, 2, 0]"] h1
  have "decode_encoded [3, 1, 2, 0] 1 = Inr [3, 1, 2, 0]"
    by blast
  ultimately show ?thesis by simp
qed


section \<open>The snapshot: the blank snapshot\<close>

lemma list_update_Cons_numeral:
  "(x # xs)[numeral v := y] = x # xs[numeral v - 1 := y]"
  by (simp add: numeral_eq_Suc)

lemma replicate_256_zero:
  "replicate 256 (0::byte) =
    [0, 0, 0, 0, 0, 0, 0, 0, 0, 0, 0, 0, 0, 0, 0, 0,
     0, 0, 0, 0, 0, 0, 0, 0, 0, 0, 0, 0, 0, 0, 0, 0,
     0, 0, 0, 0, 0, 0, 0, 0, 0, 0, 0, 0, 0, 0, 0, 0,
     0, 0, 0, 0, 0, 0, 0, 0, 0, 0, 0, 0, 0, 0, 0, 0,
     0, 0, 0, 0, 0, 0, 0, 0, 0, 0, 0, 0, 0, 0, 0, 0,
     0, 0, 0, 0, 0, 0, 0, 0, 0, 0, 0, 0, 0, 0, 0, 0,
     0, 0, 0, 0, 0, 0, 0, 0, 0, 0, 0, 0, 0, 0, 0, 0,
     0, 0, 0, 0, 0, 0, 0, 0, 0, 0, 0, 0, 0, 0, 0, 0,
     0, 0, 0, 0, 0, 0, 0, 0, 0, 0, 0, 0, 0, 0, 0, 0,
     0, 0, 0, 0, 0, 0, 0, 0, 0, 0, 0, 0, 0, 0, 0, 0,
     0, 0, 0, 0, 0, 0, 0, 0, 0, 0, 0, 0, 0, 0, 0, 0,
     0, 0, 0, 0, 0, 0, 0, 0, 0, 0, 0, 0, 0, 0, 0, 0,
     0, 0, 0, 0, 0, 0, 0, 0, 0, 0, 0, 0, 0, 0, 0, 0,
     0, 0, 0, 0, 0, 0, 0, 0, 0, 0, 0, 0, 0, 0, 0, 0,
     0, 0, 0, 0, 0, 0, 0, 0, 0, 0, 0, 0, 0, 0, 0, 0,
     0, 0, 0, 0, 0, 0, 0, 0, 0, 0, 0, 0, 0, 0, 0, 0]"
  by code_simp

lemma replicate_16_20:
  "replicate 16 (20::int) = [20, 20, 20, 20, 20, 20, 20, 20, 20, 20, 20, 20, 20, 20, 20, 20]"
  by code_simp

lemma Snapshot_init_64: "Snapshot_init 64 = Inr blank_snapshot"
  by (simp add: Snapshot_init_def store_header_def setitem_def getitem_def setslice_def
      slice_bound_def set_crtc_registers_def set_crtc_register_def set_inks_def set_ink_def
      set_border_def set_screen_mode_def disable_lower_rom_def disable_upper_rom_def
      disable_interrupts_def in_range_def validate_hardware_ink_colour_def
      replicate_256_zero replicate_16_20 list_update_Cons_numeral blank_snapshot_def)

lemma length_blank_header: "length (snapshot.header blank_snapshot) = 256"
  by (simp add: blank_snapshot_def)

lemma length_blank_memory: "length (memory blank_snapshot) = 65536"
  by (simp add: blank_snapshot_def)

section \<open>The snapshot: inks in the alternate encoding\<close>

text \<open>
  C1. The claim: ink 5 set with hardware colour 0x45 is accepted and stored as with
  0x05. On the blank snapshot \<open>set_ink\<close> raises \<open>ValueError\<close> for 0x45 and leaves the
  header as it was, and so does \<open>set_inks\<close> with the list \<open>[0x45]\<close>, although
  \<open>_validate_hardware_ink_colour\<close> accepts 0x45; with 0x05 \<open>set_ink\<close> stores 5 at
  header offset 0x34.
\<close>

theorem set_ink_alternate_encoding_rejected:
  "set_ink blank_snapshot 5 0x45 = Raised ValueError blank_snapshot \<and>
   set_inks blank_snapshot [0x45] = Raised ValueError blank_snapshot \<and>
   set_ink blank_snapshot 5 0x05 =
     Done (blank_snapshot\<lparr>snapshot.header := (snapshot.header blank_snapshot)[0x34 := 5]\<rparr>) \<and>
   validate_hardware_ink_colour 0x45"
  by (simp add: set_ink_def set_inks_def in_range_def validate_hardware_ink_colour_def
      store_header_def setitem_def length_blank_header)

section \<open>The snapshot: the number of CRTC registers set at once\<close>

text \<open>
  C5. The claim: \<open>set_crtc_registers\<close> accepts a list of exactly 18 values. On the blank
  snapshot a list of 18 zeros raises \<open>ListSizeError(1, 18)\<close> and changes nothing.
\<close>

theorem set_crtc_registers_18_rejected:
  "set_crtc_registers blank_snapshot [0, 0, 0, 0, 0, 0, 0, 0, 0, 0, 0, 0, 0, 0, 0, 0, 0, 0] =
     Raised (ListSizeError 1 18) blank_snapshot"
  by (simp add: set_crtc_registers_def in_range_def)

section \<open>The snapshot: firmware colours read back\<close>

lemma firmware_inks_range: "\<forall>v \<in> set firmware_inks. 0 \<le> v \<and> v \<le> 31"
  by (simp add: firmware_inks_def)

lemma length_firmware_inks: "length firmware_inks = 32"
  by (simp add: firmware_inks_def)

lemma getitem_in_set: "getitem xs i = Inr v \<Longrightarrow> v \<in> set xs"
  by (auto simp: getitem_def Let_def split: if_splits)

lemma getitem_nonneg:
  "0 \<le> i \<Longrightarrow> getitem xs i = (if i < int (length xs) then Inr (xs ! nat i) else Inl IndexError)"
  by (simp add: getitem_def)

lemma get_firmware_ink_value:
  "get_firmware_ink s ink = Inr v \<Longrightarrow> 0 \<le> v \<and> v \<le> 31"
  using firmware_inks_range
  by (auto simp: get_firmware_ink_def split: sum.splits dest!: getitem_in_set)

lemma get_firmware_ink_conv:
  assumes "length (snapshot.header s) = 256" "0 \<le> ink" "ink \<le> 15"
  shows "get_firmware_ink s ink =
     (if uint (snapshot.header s ! nat (ink + 0x2f)) AND 0x3f < 32
      then Inr (firmware_inks ! nat (uint (snapshot.header s ! nat (ink + 0x2f)) AND 0x3f))
      else Inl IndexError)"
  using assms
  by (simp add: get_firmware_ink_def getitem_nonneg length_firmware_inks)

lemma get_firmware_inks_loop_range:
  "get_firmware_inks_loop s idxs inks = Inr res \<Longrightarrow> \<forall>v \<in> set inks. 0 \<le> v \<and> v \<le> 31
     \<Longrightarrow> length res = length inks \<and> (\<forall>v \<in> set res. 0 \<le> v \<and> v \<le> 31)"
proof (induction idxs arbitrary: inks)
  case Nil
  then show ?case by simp
next
  case (Cons ink rest)
  from Cons.prems(1) obtain c where c: "get_firmware_ink s ink = Inr c"
    and rest: "get_firmware_inks_loop s rest (inks[nat ink := c]) = Inr res"
    by (auto split: sum.splits)
  have "\<forall>v \<in> set (inks[nat ink := c]). 0 \<le> v \<and> v \<le> 31"
    using Cons.prems(2) get_firmware_ink_value [OF c] set_update_subset_insert [of inks "nat ink" c]
    by auto
  from Cons.IH [OF rest this] show ?case by simp
qed

lemma get_firmware_inks_loop_returns:
  "\<forall>ink \<in> set idxs. \<exists>c. get_firmware_ink s ink = Inr c
     \<Longrightarrow> \<exists>res. get_firmware_inks_loop s idxs inks = Inr res"
  by (induction idxs arbitrary: inks) auto

text \<open>
  C9, as amended. With a 256-byte header and an ink number from 0 to 15,
  \<open>get_firmware_ink\<close> looks the low six bits of the ink's header byte up in the
  32-entry table: when they are below 32 it returns a value between 0 and 31 (the table
  holds every value from 0 to 31, so 27 to 31 occur), and otherwise it raises
  \<open>IndexError\<close>. When the low six bits of all 16 ink bytes are below 32,
  \<open>get_firmware_inks\<close> returns 16 values between 0 and 31.
\<close>

theorem get_firmware_ink_range:
  assumes "length (snapshot.header s) = 256"
  shows "(0 \<le> ink \<and> ink \<le> 15 \<longrightarrow>
           (if uint (snapshot.header s ! nat (ink + 0x2f)) AND 0x3f < 32
            then \<exists>v. get_firmware_ink s ink = Inr v \<and> 0 \<le> v \<and> v \<le> 31
            else get_firmware_ink s ink = Inl IndexError)) \<and>
         ((\<forall>i \<in> {0..15}. uint (snapshot.header s ! nat (i + 0x2f)) AND 0x3f < 32) \<longrightarrow>
           (\<exists>inks. get_firmware_inks s = Inr inks \<and> length inks = 16 \<and>
              (\<forall>v \<in> set inks. 0 \<le> v \<and> v \<le> 31)))"
proof (intro conjI impI)
  assume ink: "0 \<le> ink \<and> ink \<le> 15"
  show "if uint (snapshot.header s ! nat (ink + 0x2f)) AND 0x3f < 32
        then \<exists>v. get_firmware_ink s ink = Inr v \<and> 0 \<le> v \<and> v \<le> 31
        else get_firmware_ink s ink = Inl IndexError"
  proof (cases "uint (snapshot.header s ! nat (ink + 0x2f)) AND 0x3f < 32")
    case True
    with assms ink have "get_firmware_ink s ink =
        Inr (firmware_inks ! nat (uint (snapshot.header s ! nat (ink + 0x2f)) AND 0x3f))"
      by (simp add: get_firmware_ink_conv)
    with True get_firmware_ink_value show ?thesis by auto
  next
    case False
    with assms ink show ?thesis by (simp add: get_firmware_ink_conv)
  qed
next
  assume all: "\<forall>i \<in> {0..15}. uint (snapshot.header s ! nat (i + 0x2f)) AND 0x3f < 32"
  have "\<forall>ink \<in> set [0..15]. \<exists>c. get_firmware_ink s ink = Inr c"
  proof
    fix ink :: int assume "ink \<in> set [0..15]"
    then have r: "0 \<le> ink" "ink \<le> 15" by auto
    with all have "uint (snapshot.header s ! nat (ink + 0x2f)) AND 0x3f < 32" by simp
    with assms r show "\<exists>c. get_firmware_ink s ink = Inr c"
      by (simp add: get_firmware_ink_conv)
  qed
  from get_firmware_inks_loop_returns [OF this]
  obtain inks where inks: "get_firmware_inks s = Inr inks"
    unfolding get_firmware_inks_def by blast
  have "length inks = length (replicate 16 (0::int)) \<and> (\<forall>v \<in> set inks. 0 \<le> v \<and> v \<le> 31)"
    by (rule get_firmware_inks_loop_range [OF inks [unfolded get_firmware_inks_def]]) simp
  with inks show "\<exists>inks. get_firmware_inks s = Inr inks \<and> length inks = 16 \<and>
              (\<forall>v \<in> set inks. 0 \<le> v \<and> v \<le> 31)" by simp
qed



text \<open>
  C9 as claimed (every firmware colour read is between 0 and 26) fails: after
  \<open>set_ink(0, 1)\<close> on the blank snapshot, \<open>get_firmware_ink(0)\<close> returns 27.
\<close>

theorem get_firmware_ink_27_counterexample:
  "set_ink blank_snapshot 0 1 =
     Done (blank_snapshot\<lparr>snapshot.header := (snapshot.header blank_snapshot)[0x2f := 1]\<rparr>) \<and>
   get_firmware_ink
     (blank_snapshot\<lparr>snapshot.header := (snapshot.header blank_snapshot)[0x2f := 1]\<rparr>) 0 =
     Inr 27"
  by (simp add: set_ink_def in_range_def store_header_def setitem_def get_firmware_ink_def
      getitem_def length_blank_header firmware_inks_def)

lemma blank_inks_low:
  assumes "i \<in> {0..15}"
  shows "uint (snapshot.header blank_snapshot ! nat (i + 0x2f)) AND 0x3f < 32"
proof -
  from assms have "0 \<le> i" "i \<le> 15" by simp_all
  from nibble_cases [OF this] show ?thesis
    by (elim insertE emptyE; simp add: blank_snapshot_def)
qed

theorem get_firmware_ink_range_witness:
  "length (snapshot.header blank_snapshot) = 256 \<and>
   (\<exists>v. get_firmware_ink blank_snapshot 5 = Inr v \<and> 0 \<le> v \<and> v \<le> 31) \<and>
   (\<exists>inks. get_firmware_inks blank_snapshot = Inr inks \<and> length inks = 16 \<and>
      (\<forall>v \<in> set inks. 0 \<le> v \<and> v \<le> 31))"
proof -
  have low: "\<forall>i \<in> {0..15}. uint (snapshot.header blank_snapshot ! nat (i + 0x2f)) AND 0x3f < 32"
    using blank_inks_low by blast
  have low5: "uint (snapshot.header blank_snapshot ! nat (5 + 0x2f)) AND 0x3f < 32"
    by (rule blank_inks_low) simp
  from get_firmware_ink_range [OF length_blank_header, of 5] low low5 length_blank_header
  show ?thesis by simp
qed

section \<open>The snapshot: the bulk setters\<close>

lemma store_header_Done:
  assumes "0 \<le> i" "i < int (length (snapshot.header s))" "0 \<le> v" "v < 256"
  shows "store_header s i v =
           Done (s\<lparr>snapshot.header := (snapshot.header s)[nat i := word_of_int v]\<rparr>)"
  using assms by (simp add: store_header_def setitem_def)

lemma take_Suc_update:
  "n < length h \<Longrightarrow> take (Suc n) (h[n := w]) = take n h @ [w]"
  by (simp add: take_Suc_conv_app_nth)

lemma set_inks_loop_Done:
  assumes "length (snapshot.header s) = 256" "k + length cs \<le> 16"
    and "\<forall>c \<in> set cs. 0 \<le> c \<and> c < 32"
  shows "set_inks_loop s (int k) cs =
           Done (s\<lparr>snapshot.header :=
                   take (0x2f + k) (snapshot.header s) @ map word_of_int cs @
                   drop (0x2f + k + length cs) (snapshot.header s)\<rparr>)"
  using assms
proof (induction cs arbitrary: s k)
  case Nil
  then show ?case by simp
next
  case (Cons c cs)
  let ?h = "snapshot.header s"
  let ?s' = "s\<lparr>snapshot.header := ?h[0x2f + k := word_of_int c]\<rparr>"
  from Cons.prems have c: "0 \<le> c" "c < 32" and k: "k < 16" by simp_all
  have step: "set_ink s (int k) c = Done ?s'"
    using c k Cons.prems(1)
    by (simp add: set_ink_def in_range_def store_header_Done nat_add_distrib add.commute)
  have valid: "validate_hardware_ink_colour c"
    using c by (simp add: validate_hardware_ink_colour_def in_range_def)
  have "set_inks_loop ?s' (int (Suc k)) cs =
          Done (?s'\<lparr>snapshot.header :=
                  take (0x2f + Suc k) (snapshot.header ?s') @ map word_of_int cs @
                  drop (0x2f + Suc k + length cs) (snapshot.header ?s')\<rparr>)"
    using Cons.prems by (intro Cons.IH) simp_all
  moreover have "take (0x2f + Suc k) (?h[0x2f + k := word_of_int c]) =
                   take (0x2f + k) ?h @ [word_of_int c]"
    using k Cons.prems(1) take_Suc_update [of "0x2f + k" ?h] by simp
  ultimately show ?case
    using step valid by (simp add: ac_simps)
qed

lemma set_inks_loop_append:
  "set_inks_loop s k (xs @ ys) =
     and_then (set_inks_loop s k xs) (\<lambda>s'. set_inks_loop s' (k + int (length xs)) ys)"
proof (induction xs arbitrary: s k)
  case Nil
  then show ?case by simp
next
  case (Cons c xs)
  show ?case
  proof (cases "set_ink s k c")
    case (Done s')
    with Cons.IH [of s' "k + 1"] show ?thesis by (simp add: ac_simps)
  next
    case (Raised e s')
    then show ?thesis by simp
  qed
qed

lemma set_crtc_registers_loop_Done:
  assumes "length (snapshot.header s) = 256" "k + length vs \<le> 18"
    and "\<forall>v \<in> set vs. 0 \<le> v \<and> v < 256"
  shows "set_crtc_registers_loop s (int k) vs =
           Done (s\<lparr>snapshot.header :=
                   take (0x43 + k) (snapshot.header s) @ map word_of_int vs @
                   drop (0x43 + k + length vs) (snapshot.header s)\<rparr>)"
  using assms
proof (induction vs arbitrary: s k)
  case Nil
  then show ?case by simp
next
  case (Cons v vs)
  let ?h = "snapshot.header s"
  let ?s' = "s\<lparr>snapshot.header := ?h[0x43 + k := word_of_int v]\<rparr>"
  from Cons.prems have v: "0 \<le> v" "v < 256" and k: "k < 18" by simp_all
  have step: "set_crtc_register s (int k) v = Done ?s'"
    using v k Cons.prems(1)
    by (simp add: set_crtc_register_def in_range_def store_header_Done nat_add_distrib
        add.commute)
  have "set_crtc_registers_loop ?s' (int (Suc k)) vs =
          Done (?s'\<lparr>snapshot.header :=
                  take (0x43 + Suc k) (snapshot.header ?s') @ map word_of_int vs @
                  drop (0x43 + Suc k + length vs) (snapshot.header ?s')\<rparr>)"
    using Cons.prems by (intro Cons.IH) simp_all
  moreover have "take (0x43 + Suc k) (?h[0x43 + k := word_of_int v]) =
                   take (0x43 + k) ?h @ [word_of_int v]"
    using k Cons.prems(1) take_Suc_update [of "0x43 + k" ?h] by simp
  ultimately show ?case
    using step v by (simp add: ac_simps in_range_def)
qed

lemma set_crtc_registers_loop_append:
  "set_crtc_registers_loop s k (xs @ ys) =
     and_then (set_crtc_registers_loop s k xs)
       (\<lambda>s'. set_crtc_registers_loop s' (k + int (length xs)) ys)"
proof (induction xs arbitrary: s k)
  case Nil
  then show ?case by simp
next
  case (Cons v xs)
  show ?case
  proof (cases "set_crtc_register s k v")
    case (Done s')
    with Cons.IH [of s' "k + 1"] show ?thesis by (simp add: ac_simps)
  next
    case (Raised e s')
    then show ?thesis by simp
  qed
qed

text \<open>
  C2, as amended. \<open>set_inks\<close> and \<open>set_crtc_registers\<close> check and store element by
  element. On a snapshot with a 256-byte header, for a list of accepted length (at most
  16 inks, at most 17 registers) whose element \<open>bad\<close> is invalid (not a hardware ink
  colour, not in 0-255) and comes after the valid elements \<open>pre\<close> (inks in 0-31, register
  values in 0-255), the call raises \<open>ValueError\<close>, and the header then is the old header with the
  bytes from offset 0x2F (inks) or 0x43 (registers) on replaced by the elements of
  \<open>pre\<close>, one byte each, and every other byte as before.
\<close>

theorem bulk_setters_store_until_invalid:
  assumes "length (snapshot.header s) = 256"
  shows "(length (pre @ bad # post) \<le> 16 \<and> (\<forall>c \<in> set pre. 0 \<le> c \<and> c < 32) \<and>
          \<not> validate_hardware_ink_colour bad \<longrightarrow>
            set_inks s (pre @ bad # post) =
              Raised ValueError
                (s\<lparr>snapshot.header :=
                    take 0x2f (snapshot.header s) @ map word_of_int pre @
                    drop (0x2f + length pre) (snapshot.header s)\<rparr>)) \<and>
         (length (pre @ bad # post) \<le> 17 \<and> (\<forall>v \<in> set pre. 0 \<le> v \<and> v < 256) \<and>
          \<not> (0 \<le> bad \<and> bad < 256) \<longrightarrow>
            set_crtc_registers s (pre @ bad # post) =
              Raised ValueError
                (s\<lparr>snapshot.header :=
                    take 0x43 (snapshot.header s) @ map word_of_int pre @
                    drop (0x43 + length pre) (snapshot.header s)\<rparr>))"
proof (intro conjI impI)
  assume h: "length (pre @ bad # post) \<le> 16 \<and> (\<forall>c \<in> set pre. 0 \<le> c \<and> c < 32) \<and>
          \<not> validate_hardware_ink_colour bad"
  then have "set_inks_loop s (int 0) pre =
           Done (s\<lparr>snapshot.header :=
                   take (0x2f + 0) (snapshot.header s) @ map word_of_int pre @
                   drop (0x2f + 0 + length pre) (snapshot.header s)\<rparr>)"
    using assms by (intro set_inks_loop_Done) simp_all
  with h show "set_inks s (pre @ bad # post) =
              Raised ValueError
                (s\<lparr>snapshot.header :=
                    take 0x2f (snapshot.header s) @ map word_of_int pre @
                    drop (0x2f + length pre) (snapshot.header s)\<rparr>)"
    by (simp add: set_inks_def in_range_def set_inks_loop_append)
next
  assume h: "length (pre @ bad # post) \<le> 17 \<and> (\<forall>v \<in> set pre. 0 \<le> v \<and> v < 256) \<and>
          \<not> (0 \<le> bad \<and> bad < 256)"
  then have "set_crtc_registers_loop s (int 0) pre =
           Done (s\<lparr>snapshot.header :=
                   take (0x43 + 0) (snapshot.header s) @ map word_of_int pre @
                   drop (0x43 + 0 + length pre) (snapshot.header s)\<rparr>)"
    using assms by (intro set_crtc_registers_loop_Done) simp_all
  with h show "set_crtc_registers s (pre @ bad # post) =
              Raised ValueError
                (s\<lparr>snapshot.header :=
                    take 0x43 (snapshot.header s) @ map word_of_int pre @
                    drop (0x43 + length pre) (snapshot.header s)\<rparr>)"
    by (simp add: set_crtc_registers_def in_range_def set_crtc_registers_loop_append)
qed


theorem bulk_setters_store_until_invalid_witness:
  "length (snapshot.header blank_snapshot) = 256 \<and>
   set_inks blank_snapshot ([1] @ 99 # []) =
     Raised ValueError
       (blank_snapshot\<lparr>snapshot.header :=
           take 0x2f (snapshot.header blank_snapshot) @ map word_of_int [1] @
           drop (0x2f + length [1::int]) (snapshot.header blank_snapshot)\<rparr>) \<and>
   set_crtc_registers blank_snapshot ([1] @ 256 # []) =
     Raised ValueError
       (blank_snapshot\<lparr>snapshot.header :=
           take 0x43 (snapshot.header blank_snapshot) @ map word_of_int [1] @
           drop (0x43 + length [1::int]) (snapshot.header blank_snapshot)\<rparr>)"
proof -
  have inks: "length ([1] @ 99 # [] :: int list) \<le> 16 \<and>
      (\<forall>c \<in> set [1::int]. 0 \<le> c \<and> c < 32) \<and> \<not> validate_hardware_ink_colour 99"
    by (simp add: validate_hardware_ink_colour_def in_range_def)
  have regs: "length ([1] @ 256 # [] :: int list) \<le> 17 \<and>
      (\<forall>v \<in> set [1::int]. 0 \<le> v \<and> v < 256) \<and> \<not> (0 \<le> (256::int) \<and> (256::int) < 256)"
    by simp
  from bulk_setters_store_until_invalid [OF length_blank_header, of "[1]" 99 "[]"] inks
  have "set_inks blank_snapshot ([1] @ 99 # []) =
     Raised ValueError
       (blank_snapshot\<lparr>snapshot.header :=
           take 0x2f (snapshot.header blank_snapshot) @ map word_of_int [1] @
           drop (0x2f + length [1::int]) (snapshot.header blank_snapshot)\<rparr>)"
    by blast
  moreover
  from bulk_setters_store_until_invalid [OF length_blank_header, of "[1]" 256 "[]"] regs
  have "set_crtc_registers blank_snapshot ([1] @ 256 # []) =
     Raised ValueError
       (blank_snapshot\<lparr>snapshot.header :=
           take 0x43 (snapshot.header blank_snapshot) @ map word_of_int [1] @
           drop (0x43 + length [1::int]) (snapshot.header blank_snapshot)\<rparr>)"
    by blast
  ultimately show ?thesis using length_blank_header by blast
qed

lemma blank_header_nth:
  "snapshot.header blank_snapshot ! 0x2f = 20" "snapshot.header blank_snapshot ! 0x43 = 63"
  by (simp_all add: blank_snapshot_def)

text \<open>
  C2 as claimed (a bulk setter that fails has modified no ink or CRTC byte) fails: on
  the blank snapshot \<open>set_inks([1, 99])\<close> raises \<open>ValueError\<close> with ink 0 changed from
  20 to 1, and \<open>set_crtc_registers([1, 256])\<close> raises \<open>ValueError\<close> with register 0
  changed from 63 to 1.
\<close>

theorem bulk_setters_partial_store_counterexample:
  "set_inks blank_snapshot [1, 99] =
     Raised ValueError
       (blank_snapshot\<lparr>snapshot.header := (snapshot.header blank_snapshot)[0x2f := 1]\<rparr>) \<and>
   snapshot.header blank_snapshot ! 0x2f = 20 \<and>
   (snapshot.header blank_snapshot)[0x2f := 1] ! 0x2f = 1 \<and>
   set_crtc_registers blank_snapshot [1, 256] =
     Raised ValueError
       (blank_snapshot\<lparr>snapshot.header := (snapshot.header blank_snapshot)[0x43 := 1]\<rparr>) \<and>
   snapshot.header blank_snapshot ! 0x43 = 63 \<and>
   (snapshot.header blank_snapshot)[0x43 := 1] ! 0x43 = 1"
  by (simp add: set_inks_def set_ink_def set_crtc_registers_def set_crtc_register_def
      in_range_def validate_hardware_ink_colour_def store_header_def setitem_def
      length_blank_header blank_header_nth)

section \<open>The snapshot: inserting bytes\<close>

lemma setslice_in_place:
  assumes "0 \<le> i" "nat i + length ys \<le> length xs"
  shows "setslice xs i (i + int (length ys)) ys =
           take (nat i) xs @ ys @ drop (nat i + length ys) xs"
proof -
  from assms have "slice_bound (length xs) i = nat i"
    by (simp add: slice_bound_def)
  moreover from assms have "slice_bound (length xs) (i + int (length ys)) = nat i + length ys"
    by (simp add: slice_bound_def nat_add_distrib)
  ultimately show ?thesis by (simp add: setslice_def Let_def)
qed

lemma getslice_written:
  assumes "0 \<le> i" "nat i + length ys \<le> length xs"
  shows "getslice (take (nat i) xs @ ys @ drop (nat i + length ys) xs) i (i + int (length ys)) = ys"
proof -
  let ?zs = "take (nat i) xs @ ys @ drop (nat i + length ys) xs"
  from assms have len: "length ?zs = length xs" by simp
  from assms have lo: "slice_bound (length ?zs) i = nat i"
    unfolding len by (simp add: slice_bound_def)
  from assms have hi: "slice_bound (length ?zs) (i + int (length ys)) = nat i + length ys"
    unfolding len by (simp add: slice_bound_def nat_add_distrib)
  from assms have "length (take (nat i) xs) = nat i" by simp
  then have "drop (nat i) ?zs = ys @ drop (nat i + length ys) xs"
    by (metis append_eq_conv_conj)
  then show ?thesis
    unfolding getslice_def Let_def lo hi by simp
qed

text \<open>
  C7, as amended. On a snapshot whose memory is at least 64 KiB long, with a start
  offset that is not negative: when the range crosses from the main 64 KiB into banked
  RAM (start below 0x10000, last written offset at or above it), or its last offset is
  at or beyond the end of the memory, \<open>insert_bytes\<close> raises \<open>MemoryError\<close> and the
  snapshot is as before; otherwise it returns, the memory is the old one with exactly
  the target range replaced by the bytes, its length is unchanged, and the range reads
  back as the bytes written.
\<close>

theorem insert_bytes_bounds:
  assumes "65536 \<le> length (memory s)"
    and "0 \<le> start_offset"
  shows "((start_offset < 0x10000 \<and> 0x10000 \<le> int (length bytes) + start_offset - 1) \<or>
          int (length (memory s)) \<le> int (length bytes) + start_offset - 1
            \<longrightarrow> insert_bytes s bytes start_offset = Raised MemoryError s) \<and>
         (\<not> ((start_offset < 0x10000 \<and> 0x10000 \<le> int (length bytes) + start_offset - 1) \<or>
             int (length (memory s)) \<le> int (length bytes) + start_offset - 1)
            \<longrightarrow> insert_bytes s bytes start_offset =
                  Done (s\<lparr>memory := take (nat start_offset) (memory s) @ bytes @
                                     drop (nat start_offset + length bytes) (memory s)\<rparr>) \<and>
                length (take (nat start_offset) (memory s) @ bytes @
                          drop (nat start_offset + length bytes) (memory s)) =
                  length (memory s) \<and>
                getslice (take (nat start_offset) (memory s) @ bytes @
                            drop (nat start_offset + length bytes) (memory s))
                  start_offset (start_offset + int (length bytes)) = bytes)"
proof (intro conjI impI)
  assume "(start_offset < 0x10000 \<and> 0x10000 \<le> int (length bytes) + start_offset - 1) \<or>
          int (length (memory s)) \<le> int (length bytes) + start_offset - 1"
  with assms show "insert_bytes s bytes start_offset = Raised MemoryError s"
    by (auto simp: insert_bytes_def Let_def)
next
  assume ok: "\<not> ((start_offset < 0x10000 \<and> 0x10000 \<le> int (length bytes) + start_offset - 1) \<or>
             int (length (memory s)) \<le> int (length bytes) + start_offset - 1)"
  with assms have fits: "nat start_offset + length bytes \<le> length (memory s)"
    by auto
  from ok assms have "insert_bytes s bytes start_offset =
      Done (s\<lparr>memory := setslice (memory s) start_offset
                            (start_offset + int (length bytes)) bytes\<rparr>)"
    by (auto simp: insert_bytes_def Let_def)
  then show "insert_bytes s bytes start_offset =
                  Done (s\<lparr>memory := take (nat start_offset) (memory s) @ bytes @
                                     drop (nat start_offset + length bytes) (memory s)\<rparr>)"
    by (simp add: setslice_in_place [OF assms(2) fits])
  from fits show "length (take (nat start_offset) (memory s) @ bytes @
                          drop (nat start_offset + length bytes) (memory s)) =
                  length (memory s)" by simp
  show "getslice (take (nat start_offset) (memory s) @ bytes @
                            drop (nat start_offset + length bytes) (memory s))
                  start_offset (start_offset + int (length bytes)) = bytes"
    by (rule getslice_written [OF assms(2) fits])
qed

theorem insert_bytes_bounds_witness:
  "insert_bytes blank_snapshot [1, 2, 3, 4, 5, 6, 7, 8, 9, 10] 0xFFFC =
     Raised MemoryError blank_snapshot \<and>
   insert_bytes blank_snapshot [1, 2, 3, 4, 5, 6, 7, 8, 9, 10] 0xFFF0 =
     Done (blank_snapshot\<lparr>memory :=
             take 0xFFF0 (memory blank_snapshot) @ [1, 2, 3, 4, 5, 6, 7, 8, 9, 10] @
             drop 0xFFFA (memory blank_snapshot)\<rparr>) \<and>
   getslice (take 0xFFF0 (memory blank_snapshot) @ [1, 2, 3, 4, 5, 6, 7, 8, 9, 10] @
             drop 0xFFFA (memory blank_snapshot)) 0xFFF0 0xFFFA =
     [1, 2, 3, 4, 5, 6, 7, 8, 9, 10]"
proof -
  have mem: "65536 \<le> length (memory blank_snapshot)"
    by (simp add: length_blank_memory)
  have "insert_bytes blank_snapshot [1, 2, 3, 4, 5, 6, 7, 8, 9, 10] 0xFFFC =
     Raised MemoryError blank_snapshot"
    using insert_bytes_bounds [OF mem, of "0xFFFC" "[1, 2, 3, 4, 5, 6, 7, 8, 9, 10]"]
    by (simp add: length_blank_memory)
  moreover
  have "insert_bytes blank_snapshot [1, 2, 3, 4, 5, 6, 7, 8, 9, 10] 0xFFF0 =
     Done (blank_snapshot\<lparr>memory :=
             take 0xFFF0 (memory blank_snapshot) @ [1, 2, 3, 4, 5, 6, 7, 8, 9, 10] @
             drop 0xFFFA (memory blank_snapshot)\<rparr>) \<and>
   getslice (take 0xFFF0 (memory blank_snapshot) @ [1, 2, 3, 4, 5, 6, 7, 8, 9, 10] @
             drop 0xFFFA (memory blank_snapshot)) 0xFFF0 0xFFFA =
     [1, 2, 3, 4, 5, 6, 7, 8, 9, 10]"
    using insert_bytes_bounds [OF mem, of "0xFFF0" "[1, 2, 3, 4, 5, 6, 7, 8, 9, 10]"]
    by (simp add: length_blank_memory)
  ultimately show ?thesis by blast
qed

lemma Snapshot_init_file_short: "Snapshot_init_file short_sna = Inr short_snapshot"
  by code_simp

text \<open>
  C7 as claimed (for every snapshot and every start offset) fails. On the blank 64 KiB
  snapshot, 2 bytes at offset -1 neither cross the 64 KiB boundary nor pass the end of
  the memory, and \<open>insert_bytes\<close> returns with the memory 2 bytes longer. On the
  snapshot read from the short file, whose memory is 100 bytes long, 10 bytes at offset
  95 pass the end of the memory, and \<open>insert_bytes\<close> returns with the memory 105 bytes
  long.
\<close>

theorem insert_bytes_grows_counterexample:
  "length (memory blank_snapshot) = 65536 \<and>
   insert_bytes blank_snapshot [1, 2] (- 1) =
     Done (blank_snapshot\<lparr>memory :=
             take 65535 (memory blank_snapshot) @ [1, 2] @
             drop 65535 (memory blank_snapshot)\<rparr>) \<and>
   length (take 65535 (memory blank_snapshot) @ [1, 2] @ drop 65535 (memory blank_snapshot)) =
     65538 \<and>
   Snapshot_init_file short_sna = Inr short_snapshot \<and>
   length (memory short_snapshot) = 100 \<and>
   insert_bytes short_snapshot [1, 2, 3, 4, 5, 6, 7, 8, 9, 10] 95 =
     Done (short_snapshot\<lparr>memory := replicate 95 0 @ [1, 2, 3, 4, 5, 6, 7, 8, 9, 10]\<rparr>)"
proof -
  have "insert_bytes blank_snapshot [1, 2] (- 1) =
     Done (blank_snapshot\<lparr>memory :=
             take 65535 (memory blank_snapshot) @ [1, 2] @
             drop 65535 (memory blank_snapshot)\<rparr>)"
    by (simp add: insert_bytes_def setslice_def slice_bound_def length_blank_memory)
  moreover have "length (take 65535 (memory blank_snapshot) @ [1, 2] @
      drop 65535 (memory blank_snapshot)) = 65538"
    by (simp add: length_blank_memory)
  moreover have "length (memory short_snapshot) = 100"
    by (simp add: short_snapshot_def)
  moreover have "insert_bytes short_snapshot [1, 2, 3, 4, 5, 6, 7, 8, 9, 10] 95 =
     Done (short_snapshot\<lparr>memory := replicate 95 0 @ [1, 2, 3, 4, 5, 6, 7, 8, 9, 10]\<rparr>)"
    by (simp add: insert_bytes_def setslice_def slice_bound_def short_snapshot_def)
  ultimately show ?thesis
    using length_blank_memory Snapshot_init_file_short by simp
qed

section \<open>The disk image: reading a file and writing it back\<close>

lemma getslice_prefix: "getslice xs 0 (int n) = take n xs"
  by (simp add: getslice_def slice_bound_def min_def)

lemma DiskImage_init_conv:
  "DiskImage_init content =
     (if take 23 content \<noteq> dsk_signature then Inl FileFormatError
      else if length content < 255 then Inl ValueError
      else Inr \<lparr>disk_image.header = take 256 content,
                 track_info_block = drop 256 content\<rparr>)"
proof -
  have sig: "getslice (take 256 content) 0 23 = take 23 content"
    using getslice_prefix [of "take 256 content" 23] by simp
  show ?thesis
    unfolding DiskImage_init_def file_read_def
    by (simp add: sig)
qed

text \<open>
  C4. When the constructor accepts a file, the header followed by the track information
  blocks, as written back with no sector changed, is the file's content byte for byte.
  The constructor accepts exactly the files that start with the 23-byte signature and
  are at least 255 bytes long (on a shorter file the second \<open>read\<close> is asked for fewer
  than -1 bytes and raises).
\<close>

theorem disk_image_roundtrip:
  "(DiskImage_init content = Inr d \<longrightarrow> DiskImage_write d = content) \<and>
   ((\<exists>d'. DiskImage_init content = Inr d') \<longleftrightarrow>
      take 23 content = dsk_signature \<and> 255 \<le> length content)"
  by (auto simp: DiskImage_init_conv DiskImage_write_def split: if_splits)

lemma DiskImage_init_example: "DiskImage_init example_dsk = Inr example_image"
  by code_simp

theorem disk_image_roundtrip_witness:
  "DiskImage_init example_dsk = Inr example_image \<and> DiskImage_write example_image = example_dsk"
  using disk_image_roundtrip [of example_dsk example_image] DiskImage_init_example
  by simp

section \<open>The disk image: tracks without data\<close>

text \<open>
  C8. With \<open>n\<close> the number of tracks in the header: for a track number outside
  \<open>[0, n)\<close>, \<open>get_sector_info\<close> and \<open>read_sector\<close> both raise \<open>InvalidTrackError\<close>; for
  a track number inside it whose size byte (header offset 0x34 + track) is zero,
  \<open>get_sector_info\<close> returns the empty list and \<open>read_sector\<close> raises \<open>TrackDataError\<close>,
  whatever the sector ID.
\<close>

theorem track_without_data:
  assumes "number_of_tracks d = Inr n"
  shows "(\<not> (0 \<le> track \<and> track < n) \<longrightarrow>
            get_sector_info d track = Inl (InvalidTrackError track) \<and>
            read_sector d track sector = Inl (InvalidTrackError track)) \<and>
         (0 \<le> track \<and> track < n \<and> getitem (disk_image.header d) (0x34 + track) = Inr 0 \<longrightarrow>
            get_sector_info d track = Inr [] \<and>
            read_sector d track sector = Inl (TrackDataError track))"
  using assms
  by (simp add: get_sector_info_def read_sector_def validate_track_number_def
      get_track_info_block_size_def in_range_def)

lemma example_tracks:
  "number_of_tracks example_image = Inr 2"
  "getitem (disk_image.header example_image) (0x34 + 1) = Inr 0"
  by code_simp+

theorem track_without_data_witness:
  "number_of_tracks example_image = Inr 2 \<and>
   get_sector_info example_image 2 = Inl (InvalidTrackError 2) \<and>
   read_sector example_image 2 0xC1 = Inl (InvalidTrackError 2) \<and>
   get_sector_info example_image 1 = Inr [] \<and>
   read_sector example_image 1 0xC1 = Inl (TrackDataError 1)"
  using track_without_data [OF example_tracks(1), of 2 "0xC1"]
    track_without_data [OF example_tracks(1), of 1 "0xC1"] example_tracks
  by simp

section \<open>The disk image: finding a sector\<close>

lemma then_do_eq_Inr: "then_do m f = Inr y \<longleftrightarrow> (\<exists>x. m = Inr x \<and> f x = Inr y)"
  by (cases m) simp_all

lemma get_sector_info_nonempty:
  assumes "get_sector_info d track = Inr info" "info \<noteq> []"
  shows "validate_track_number d track = Inr () \<and>
         (\<exists>sz. get_track_info_block_size d track = Inr sz \<and> sz \<noteq> 0)"
  using assms
  by (auto simp: get_sector_info_def then_do_eq_Inr split: if_splits)

lemma read_sector_conv:
  assumes "get_sector_info d track = Inr info" "info \<noteq> []"
    and "get_track_info_block_offset d track = Inr offset"
  shows "read_sector d track sector =
           read_sector_loop (track_info_block d) (offset + 0x100) info track sector"
  using get_sector_info_nonempty [OF assms(1,2)] assms(1,3)
  by (auto simp: read_sector_def)

lemma write_sector_conv:
  assumes "get_sector_info d track = Inr info" "info \<noteq> []"
    and "get_track_info_block_offset d track = Inr offset"
  shows "write_sector d track sector data =
           (case write_sector_loop (track_info_block d) (offset + 0x100) info track sector data
            of Inl e \<Rightarrow> Raised e d
             | Inr tib \<Rightarrow> Done (d\<lparr>track_info_block := tib\<rparr>))"
  using get_sector_info_nonempty [OF assms(1,2)] assms(1,3)
  by (auto simp: write_sector_def)

lemma read_sector_loop_first_match:
  assumes "\<forall>e \<in> set pre. item2 e \<noteq> sector" "item2 entry = sector"
  shows "read_sector_loop tib ptr (pre @ entry # post) track sector =
           Inr (getslice tib (ptr + sum_list (map item6 pre))
                  (ptr + sum_list (map item6 pre) + 128 * 2 ^ nat (item3 entry)))"
  using assms by (induction pre arbitrary: ptr) (simp_all add: add.assoc)

lemma write_sector_loop_first_match:
  assumes "\<forall>e \<in> set pre. item2 e \<noteq> sector" "item2 entry = sector"
  shows "write_sector_loop tib ptr (pre @ entry # post) track sector data =
           (if int (length data) \<noteq> item6 entry then Inl (SectorWriteError track sector)
            else Inr (setslice tib (ptr + sum_list (map item6 pre))
                        (ptr + sum_list (map item6 pre) + int (length data)) data))"
  using assms by (induction pre arbitrary: ptr) (simp_all add: add.assoc)

lemma get_track_info_block_size_nonneg:
  "get_track_info_block_size d i = Inr sz \<Longrightarrow> 0 \<le> sz"
  by (auto simp: get_track_info_block_size_def then_do_eq_Inr)

lemma track_info_block_offset_loop_mono:
  "track_info_block_offset_loop d is acc = Inr offset \<Longrightarrow> acc \<le> offset"
proof (induction "is" arbitrary: acc)
  case Nil
  then show ?case by simp
next
  case (Cons i rest)
  then obtain sz where "get_track_info_block_size d i = Inr sz"
    and "track_info_block_offset_loop d rest (acc + sz) = Inr offset"
    by (auto simp: then_do_eq_Inr)
  with Cons.IH [of "acc + sz"] get_track_info_block_size_nonneg [of d i sz]
  show ?case by simp
qed

lemma get_track_info_block_offset_nonneg:
  "get_track_info_block_offset d track = Inr offset \<Longrightarrow> 0 \<le> offset"
  by (auto simp: get_track_info_block_offset_def then_do_eq_Inr split: if_splits
      dest: track_info_block_offset_loop_mono)

lemma read_sector_entry_nonneg:
  "read_sector_entry tib ptr = Inr entry \<Longrightarrow> 0 \<le> item6 entry"
  by (auto simp: read_sector_entry_def then_do_eq_Inr)

lemma sector_info_loop_nonneg:
  "sector_info_loop tib ptr n = Inr entries \<Longrightarrow> \<forall>e \<in> set entries. 0 \<le> item6 e"
proof (induction n arbitrary: ptr entries)
  case 0
  then show ?case by simp
next
  case (Suc n)
  then obtain entry rest where "read_sector_entry tib ptr = Inr entry"
    and "sector_info_loop tib (ptr + 8) n = Inr rest" and "entries = entry # rest"
    by (auto simp: then_do_eq_Inr)
  with Suc.IH [of "ptr + 8" rest] read_sector_entry_nonneg [of tib ptr entry]
  show ?case by simp
qed

lemma get_sector_info_nonneg:
  "get_sector_info d track = Inr info \<Longrightarrow> \<forall>e \<in> set info. 0 \<le> item6 e"
  by (auto simp: get_sector_info_def then_do_eq_Inr split: if_splits
      dest: sector_info_loop_nonneg)

lemma sector_block_ptr_nonneg:
  assumes "get_sector_info d track = Inr (pre @ entry # post)"
    and "get_track_info_block_offset d track = Inr offset"
  shows "0 \<le> offset + 0x100 + sum_list (map item6 pre)"
proof -
  from get_sector_info_nonneg [OF assms(1)] have "0 \<le> sum_list (map item6 pre)"
    by (intro sum_list_nonneg) auto
  with get_track_info_block_offset_nonneg [OF assms(2)] show ?thesis by simp
qed

lemma length_getslice:
  assumes "0 \<le> i" "0 \<le> n"
  shows "int (length (getslice xs i (i + n))) = max 0 (min n (int (length xs) - i))"
  using assms by (auto simp: getslice_def slice_bound_def Let_def min_def max_def)


lemma getslice_split:
  assumes "0 \<le> i" "0 \<le> a" "a \<le> n"
  shows "getslice xs i (i + n) = getslice xs i (i + a) @ getslice xs (i + a) (i + n)"
proof -
  let ?lo = "slice_bound (length xs) i"
  let ?mid = "slice_bound (length xs) (i + a)"
  let ?hi = "slice_bound (length xs) (i + n)"
  from assms have le: "?lo \<le> ?mid" "?mid \<le> ?hi"
    by (simp_all add: slice_bound_def)
  then have "?hi - ?lo = (?mid - ?lo) + (?hi - ?mid)" by simp
  then have "take (?hi - ?lo) (drop ?lo xs) =
      take (?mid - ?lo) (drop ?lo xs) @ take (?hi - ?mid) (drop (?mid - ?lo) (drop ?lo xs))"
    by (simp only: take_add)
  with le show ?thesis by (simp add: getslice_def Let_def)
qed

lemma example_sector_info:
  "get_sector_info example_image 0 =
     Inr ([(0, 0, 0xC1, 0, 0, 0, 128)] @ (0, 0, 0xC2, 1, 0, 0, 128) # [])"
  "get_sector_info example_image 0 =
     Inr ([] @ (0, 0, 0xC1, 0, 0, 0, 128) # [(0, 0, 0xC2, 1, 0, 0, 128)])"
  "get_track_info_block_offset example_image 0 = Inr 0"
  by code_simp+

lemma length_example_block: "length (track_info_block example_image) = 512"
  by (simp add: example_image_def)

lemma example2_sector_info:
  "get_sector_info example_image2 0 =
     Inr ([] @ (0, 0, 0xC1, 1, 0, 0, 128) # [(0, 0, 0xC2, 0, 0, 0, 128)])"
  "get_track_info_block_offset example_image2 0 = Inr 0"
  by code_simp+

lemma length_example2_block: "length (track_info_block example_image2) = 512"
  by (simp add: example_image2_def)

lemma example2_slices:
  "getslice (track_info_block example_image2) 256 384 = replicate 128 7"
  "getslice (track_info_block example_image2) 384 512 = replicate 128 9"
  by code_simp+

section \<open>The disk image: writing a sector\<close>

text \<open>
  C6. Let the sector information list of a track be \<open>pre @ entry # post\<close>, where
  \<open>entry\<close> is the first entry with the sector ID, and let the sector's data start at
  the track's offset + 0x100 + the actual sizes of \<open>pre\<close>. When the length of the data
  differs from the entry's actual size, \<open>write_sector\<close> raises \<open>SectorWriteError\<close> and the
  object is as before. When it is equal, \<open>write_sector\<close> returns and \<open>track_info_block\<close>
  is the old one with the slice from the start of the sector to start + length
  assigned; when that range lies inside \<open>track_info_block\<close>, this is the old content
  with exactly that range replaced by the data.
\<close>

theorem write_sector_length_check:
  assumes "get_sector_info d track = Inr (pre @ entry # post)"
    and "get_track_info_block_offset d track = Inr offset"
    and "\<forall>e \<in> set pre. item2 e \<noteq> sector"
    and "item2 entry = sector"
  shows "(int (length data) \<noteq> item6 entry \<longrightarrow>
            write_sector d track sector data = Raised (SectorWriteError track sector) d) \<and>
         (int (length data) = item6 entry \<longrightarrow>
            write_sector d track sector data =
              Done (d\<lparr>track_info_block :=
                      setslice (track_info_block d)
                        (offset + 0x100 + sum_list (map item6 pre))
                        (offset + 0x100 + sum_list (map item6 pre) + int (length data))
                        data\<rparr>)) \<and>
         (offset + 0x100 + sum_list (map item6 pre) + int (length data)
            \<le> int (length (track_info_block d)) \<longrightarrow>
            setslice (track_info_block d)
              (offset + 0x100 + sum_list (map item6 pre))
              (offset + 0x100 + sum_list (map item6 pre) + int (length data)) data =
            take (nat (offset + 0x100 + sum_list (map item6 pre))) (track_info_block d) @ data @
            drop (nat (offset + 0x100 + sum_list (map item6 pre)) + length data)
              (track_info_block d))"
proof -
  let ?ptr = "offset + 0x100 + sum_list (map item6 pre)"
  have ptr: "0 \<le> ?ptr"
    by (rule sector_block_ptr_nonneg [OF assms(1,2)])
  have w: "write_sector d track sector data =
      (case write_sector_loop (track_info_block d) (offset + 0x100) (pre @ entry # post)
              track sector data
       of Inl e \<Rightarrow> Raised e d
        | Inr tib \<Rightarrow> Done (d\<lparr>track_info_block := tib\<rparr>))"
    by (rule write_sector_conv [OF assms(1) _ assms(2)]) simp
  show ?thesis
  proof (intro conjI impI)
    assume "int (length data) \<noteq> item6 entry"
    then show "write_sector d track sector data = Raised (SectorWriteError track sector) d"
      by (simp add: w write_sector_loop_first_match [OF assms(3,4)])
  next
    assume "int (length data) = item6 entry"
    then show "write_sector d track sector data =
              Done (d\<lparr>track_info_block :=
                      setslice (track_info_block d) ?ptr (?ptr + int (length data)) data\<rparr>)"
      by (simp add: w write_sector_loop_first_match [OF assms(3,4)])
  next
    assume "?ptr + int (length data) \<le> int (length (track_info_block d))"
    with ptr have "nat ?ptr + length data \<le> length (track_info_block d)" by linarith
    from setslice_in_place [OF ptr this]
    show "setslice (track_info_block d) ?ptr (?ptr + int (length data)) data =
            take (nat ?ptr) (track_info_block d) @ data @
            drop (nat ?ptr + length data) (track_info_block d)" .
  qed
qed

theorem write_sector_length_check_witness:
  "write_sector example_image 0 0xC2 (replicate 127 1) =
     Raised (SectorWriteError 0 0xC2) example_image \<and>
   write_sector example_image 0 0xC2 (replicate 128 1) =
     Done (example_image\<lparr>track_info_block :=
             take 384 (track_info_block example_image) @ replicate 128 1 @
             drop 512 (track_info_block example_image)\<rparr>)"
proof -
  have c2: "\<forall>e \<in> set [(0, 0, 0xC1, 0, 0, 0, 128)]. item2 e \<noteq> (0xC2::int)"
    "item2 (0, 0, 0xC2, 1, 0, 0, 128) = (0xC2::int)"
    by simp_all
  from write_sector_length_check
    [OF example_sector_info(1) example_sector_info(3) c2, of "replicate 127 1"]
  have "write_sector example_image 0 0xC2 (replicate 127 1) =
     Raised (SectorWriteError 0 0xC2) example_image"
    by simp
  moreover
  from write_sector_length_check
    [OF example_sector_info(1) example_sector_info(3) c2, of "replicate 128 1"]
  have "write_sector example_image 0 0xC2 (replicate 128 1) =
     Done (example_image\<lparr>track_info_block :=
             take 384 (track_info_block example_image) @ replicate 128 1 @
             drop 512 (track_info_block example_image)\<rparr>)"
    by (simp add: length_example_block)
  ultimately show ?thesis by blast
qed

section \<open>The disk image: the length of a sector read\<close>

text \<open>
  C10, as amended. With the sector information list \<open>pre @ entry # post\<close> as for C6,
  \<open>read_sector\<close> returns the slice of \<open>track_info_block\<close> from the start of the sector
  to start + 128 * 2^N, where N is the entry's size code (item 3), not its actual size
  (item 6). A slice is clipped at the end of \<open>track_info_block\<close>: its length is the
  smaller of 128 * 2^N and the number of bytes from the start of the sector to the end
  (none when the start is beyond the end). When 128 * 2^N bytes remain from the start
  of the sector: the length is 128 * 2^N; it differs from the actual size whenever the
  two fields disagree; and when 128 * 2^N is above the actual size, the slice is the
  slice of the actual size from the start of the sector followed by the slice of the
  next 128 * 2^N - actual size bytes, which begins at start + actual size. That is
  where the data of the next entry begins: when the next entry's sector ID differs from
  this one and from those of \<open>pre\<close>, \<open>read_sector\<close> for it returns the slice that
  begins at start + actual size.
\<close>

theorem read_sector_slice:
  assumes "get_sector_info d track = Inr (pre @ entry # post)"
    and "get_track_info_block_offset d track = Inr offset"
    and "\<forall>e \<in> set pre. item2 e \<noteq> sector"
    and "item2 entry = sector"
  shows "read_sector d track sector =
           Inr (getslice (track_info_block d)
                  (offset + 0x100 + sum_list (map item6 pre))
                  (offset + 0x100 + sum_list (map item6 pre) + 128 * 2 ^ nat (item3 entry))) \<and>
         int (length (getslice (track_info_block d)
                  (offset + 0x100 + sum_list (map item6 pre))
                  (offset + 0x100 + sum_list (map item6 pre) + 128 * 2 ^ nat (item3 entry)))) =
           max 0 (min (128 * 2 ^ nat (item3 entry))
                    (int (length (track_info_block d)) -
                       (offset + 0x100 + sum_list (map item6 pre)))) \<and>
         (offset + 0x100 + sum_list (map item6 pre) + 128 * 2 ^ nat (item3 entry)
            \<le> int (length (track_info_block d)) \<longrightarrow>
          int (length (getslice (track_info_block d)
                  (offset + 0x100 + sum_list (map item6 pre))
                  (offset + 0x100 + sum_list (map item6 pre) + 128 * 2 ^ nat (item3 entry)))) =
            128 * 2 ^ nat (item3 entry)) \<and>
         (offset + 0x100 + sum_list (map item6 pre) + 128 * 2 ^ nat (item3 entry)
            \<le> int (length (track_info_block d)) \<and>
          128 * 2 ^ nat (item3 entry) \<noteq> item6 entry \<longrightarrow>
          int (length (getslice (track_info_block d)
                  (offset + 0x100 + sum_list (map item6 pre))
                  (offset + 0x100 + sum_list (map item6 pre) + 128 * 2 ^ nat (item3 entry)))) \<noteq>
            item6 entry) \<and>
         (offset + 0x100 + sum_list (map item6 pre) + 128 * 2 ^ nat (item3 entry)
            \<le> int (length (track_info_block d)) \<and>
          item6 entry < 128 * 2 ^ nat (item3 entry) \<longrightarrow>
          getslice (track_info_block d)
            (offset + 0x100 + sum_list (map item6 pre))
            (offset + 0x100 + sum_list (map item6 pre) + 128 * 2 ^ nat (item3 entry)) =
          getslice (track_info_block d)
            (offset + 0x100 + sum_list (map item6 pre))
            (offset + 0x100 + sum_list (map item6 pre) + item6 entry) @
          getslice (track_info_block d)
            (offset + 0x100 + sum_list (map item6 pre) + item6 entry)
            (offset + 0x100 + sum_list (map item6 pre) + 128 * 2 ^ nat (item3 entry)) \<and>
          int (length (getslice (track_info_block d)
            (offset + 0x100 + sum_list (map item6 pre))
            (offset + 0x100 + sum_list (map item6 pre) + item6 entry))) = item6 entry \<and>
          int (length (getslice (track_info_block d)
            (offset + 0x100 + sum_list (map item6 pre) + item6 entry)
            (offset + 0x100 + sum_list (map item6 pre) + 128 * 2 ^ nat (item3 entry)))) =
            128 * 2 ^ nat (item3 entry) - item6 entry) \<and>
         (post = next # rest \<and> item2 next \<noteq> sector \<and>
          (\<forall>e \<in> set pre. item2 e \<noteq> item2 next) \<longrightarrow>
          read_sector d track (item2 next) =
            Inr (getslice (track_info_block d)
                   (offset + 0x100 + sum_list (map item6 pre) + item6 entry)
                   (offset + 0x100 + sum_list (map item6 pre) + item6 entry +
                      128 * 2 ^ nat (item3 next))))"
proof -
  let ?tib = "track_info_block d"
  let ?ptr = "offset + 0x100 + sum_list (map item6 pre)"
  let ?n = "128 * 2 ^ nat (item3 entry) :: int"
  let ?a = "item6 entry"
  have ptr: "0 \<le> ?ptr"
    by (rule sector_block_ptr_nonneg [OF assms(1,2)])
  have n: "0 \<le> ?n" by simp
  have a: "0 \<le> ?a"
    using get_sector_info_nonneg [OF assms(1)] by simp
  have r: "read_sector d track sector =
      read_sector_loop ?tib (offset + 0x100) (pre @ entry # post) track sector"
    by (rule read_sector_conv [OF assms(1) _ assms(2)]) simp
  have len: "int (length (getslice ?tib ?ptr (?ptr + ?n))) =
      max 0 (min ?n (int (length ?tib) - ?ptr))"
    by (rule length_getslice [OF ptr n])
  have c1: "read_sector d track sector = Inr (getslice ?tib ?ptr (?ptr + ?n))"
    by (simp add: r read_sector_loop_first_match [OF assms(3,4)])
  have c3: "int (length (getslice ?tib ?ptr (?ptr + ?n))) = ?n"
    if "?ptr + ?n \<le> int (length ?tib)"
    using that n unfolding len by linarith
  have c4: "int (length (getslice ?tib ?ptr (?ptr + ?n))) \<noteq> ?a"
    if "?ptr + ?n \<le> int (length ?tib) \<and> ?n \<noteq> ?a"
    using that c3 by simp
  have c5: "getslice ?tib ?ptr (?ptr + ?n) =
        getslice ?tib ?ptr (?ptr + ?a) @ getslice ?tib (?ptr + ?a) (?ptr + ?n) \<and>
      int (length (getslice ?tib ?ptr (?ptr + ?a))) = ?a \<and>
      int (length (getslice ?tib (?ptr + ?a) (?ptr + ?n))) = ?n - ?a"
    if h: "?ptr + ?n \<le> int (length ?tib) \<and> ?a < ?n"
  proof (intro conjI)
    from h have an: "?a \<le> ?n" by simp
    show "getslice ?tib ?ptr (?ptr + ?n) =
        getslice ?tib ?ptr (?ptr + ?a) @ getslice ?tib (?ptr + ?a) (?ptr + ?n)"
      by (rule getslice_split [OF ptr a an])
    have "int (length (getslice ?tib ?ptr (?ptr + ?a))) =
        max 0 (min ?a (int (length ?tib) - ?ptr))"
      by (rule length_getslice [OF ptr a])
    with h a show "int (length (getslice ?tib ?ptr (?ptr + ?a))) = ?a" by linarith
    have pa: "0 \<le> ?ptr + ?a" using ptr a by simp
    have na: "0 \<le> ?n - ?a" using h by simp
    have "int (length (getslice ?tib (?ptr + ?a) ((?ptr + ?a) + (?n - ?a)))) =
        max 0 (min (?n - ?a) (int (length ?tib) - (?ptr + ?a)))"
      by (rule length_getslice [OF pa na])
    moreover have "(?ptr + ?a) + (?n - ?a) = ?ptr + ?n" by simp
    ultimately have "int (length (getslice ?tib (?ptr + ?a) (?ptr + ?n))) =
        max 0 (min (?n - ?a) (int (length ?tib) - (?ptr + ?a)))"
      by simp
    with h show "int (length (getslice ?tib (?ptr + ?a) (?ptr + ?n))) = ?n - ?a"
      by linarith
  qed
  have c6: "read_sector d track (item2 next) =
      Inr (getslice ?tib (?ptr + ?a) (?ptr + ?a + 128 * 2 ^ nat (item3 next)))"
    if h: "post = next # rest \<and> item2 next \<noteq> sector \<and>
      (\<forall>e \<in> set pre. item2 e \<noteq> item2 next)"
  proof -
    from h assms(4) have others: "\<forall>e \<in> set (pre @ [entry]). item2 e \<noteq> item2 next"
      by auto
    from h have info: "pre @ entry # post = (pre @ [entry]) @ next # rest" by simp
    have "read_sector d track (item2 next) =
        read_sector_loop ?tib (offset + 0x100) ((pre @ [entry]) @ next # rest) track
          (item2 next)"
      unfolding info [symmetric] by (rule read_sector_conv [OF assms(1) _ assms(2)]) simp
    also have "\<dots> = Inr (getslice ?tib
        (offset + 0x100 + sum_list (map item6 (pre @ [entry])))
        (offset + 0x100 + sum_list (map item6 (pre @ [entry])) + 128 * 2 ^ nat (item3 next)))"
      by (rule read_sector_loop_first_match [OF others refl])
    finally show ?thesis by (simp add: add.assoc)
  qed
  from c1 len c3 c4 c5 c6 show ?thesis by blast
qed

text \<open>
  C10 as claimed (the length returned is 128 * 2^N, and differs from the actual size
  whenever the two fields disagree) fails: in the example image sector 0xC2 has size
  code 1 (256 bytes) and actual size 128, and \<open>read_sector\<close> returns its 128 bytes,
  because the slice is clipped at the end of \<open>track_info_block\<close>.
\<close>

theorem read_sector_clipped_counterexample:
  "get_sector_info example_image 0 =
     Inr [(0, 0, 0xC1, 0, 0, 0, 128), (0, 0, 0xC2, 1, 0, 0, 128)] \<and>
   read_sector example_image 0 0xC2 = Inr (replicate 128 9) \<and>
   length (replicate 128 (9::byte)) = 128 \<and>
   (128::int) * 2 ^ nat 1 = 256"
proof -
  have "read_sector example_image 0 0xC2 = Inr (replicate 128 9)"
    by code_simp
  with example_sector_info(1) show ?thesis by simp
qed

theorem read_sector_slice_witness:
  "read_sector example_image 0 0xC2 =
     Inr (getslice (track_info_block example_image) 384 640) \<and>
   int (length (getslice (track_info_block example_image) 384 640)) = 128 \<and>
   read_sector example_image 0 0xC1 =
     Inr (getslice (track_info_block example_image) 256 384) \<and>
   int (length (getslice (track_info_block example_image) 256 384)) = 128 \<and>
   read_sector example_image2 0 0xC1 =
     Inr (getslice (track_info_block example_image2) 256 512) \<and>
   int (length (getslice (track_info_block example_image2) 256 512)) = 256 \<and>
   getslice (track_info_block example_image2) 256 512 =
     getslice (track_info_block example_image2) 256 384 @
     getslice (track_info_block example_image2) 384 512 \<and>
   getslice (track_info_block example_image2) 256 384 = replicate 128 7 \<and>
   getslice (track_info_block example_image2) 384 512 = replicate 128 9 \<and>
   read_sector example_image2 0 0xC2 =
     Inr (getslice (track_info_block example_image2) 384 512)"
proof -
  have c2: "\<forall>e \<in> set [(0, 0, 0xC1, 0, 0, 0, 128)]. item2 e \<noteq> (0xC2::int)"
    "item2 (0, 0, 0xC2, 1, 0, 0, 128) = (0xC2::int)"
    by simp_all
  have c1: "\<forall>e \<in> set []. item2 e \<noteq> (0xC1::int)"
    "item2 (0, 0, 0xC1, 0, 0, 0, 128) = (0xC1::int)"
    by simp_all
  have d1: "\<forall>e \<in> set []. item2 e \<noteq> (0xC1::int)"
    "item2 (0, 0, 0xC1, 1, 0, 0, 128) = (0xC1::int)"
    by simp_all
  from read_sector_slice [OF example_sector_info(1) example_sector_info(3) c2]
  have "read_sector example_image 0 0xC2 =
     Inr (getslice (track_info_block example_image) 384 640) \<and>
   int (length (getslice (track_info_block example_image) 384 640)) = 128"
    by (simp add: length_example_block)
  moreover
  from read_sector_slice [OF example_sector_info(2) example_sector_info(3) c1]
  have "read_sector example_image 0 0xC1 =
     Inr (getslice (track_info_block example_image) 256 384) \<and>
   int (length (getslice (track_info_block example_image) 256 384)) = 128"
    by (simp add: length_example_block)
  moreover
  from read_sector_slice [OF example2_sector_info(1) example2_sector_info(2) d1,
      of "(0, 0, 0xC2, 0, 0, 0, 128)" "[]"]
  have "read_sector example_image2 0 0xC1 =
     Inr (getslice (track_info_block example_image2) 256 512) \<and>
   int (length (getslice (track_info_block example_image2) 256 512)) = 256 \<and>
   getslice (track_info_block example_image2) 256 512 =
     getslice (track_info_block example_image2) 256 384 @
     getslice (track_info_block example_image2) 384 512 \<and>
   read_sector example_image2 0 0xC2 =
     Inr (getslice (track_info_block example_image2) 384 512)"
    by (simp add: length_example2_block)
  ultimately show ?thesis using example2_slices by blast
qed

end
